theory Spec2Isabelle
  imports
    Main
    "HOL-Library.Signed_Division"
    "HOL-Library.Product_Lexorder"
    "HOL-Library.Char_ord"
    "HOL-Library.List_Lexorder"
    "HOL-Library.Multiset"
begin

section \<open>Exceptions\<close>

text \<open>
  Every \<^verbatim>\<open>raise\<close> that the handlers of \<^verbatim>\<open>pillz_tracker_bot.py\<close> can meet is a value.
  All of them are subclasses of Python's \<^verbatim>\<open>Exception\<close>, which is what the handlers catch.
  \<open>TelegramError\<close> stands for a failed \<^verbatim>\<open>send_message\<close>, \<open>IntegrityError\<close> for
  \<^verbatim>\<open>sqlite3.IntegrityError\<close>.
\<close>

datatype exn = ValueError | TypeError | KeyError | JSONDecodeError | IntegrityError | TelegramError

section \<open>Naive datetimes\<close>

text \<open>
  \<^verbatim>\<open>datetime.now()\<close> and \<^verbatim>\<open>datetime.strptime\<close> return naive datetimes: seven fields and no
  time zone. The arithmetic below follows CPython's \<^verbatim>\<open>datetime.py\<close>.
\<close>

record datetime =
  year :: nat
  month :: nat
  day :: nat
  hour :: nat
  minute :: nat
  second :: nat
  microsecond :: nat

definition is_leap :: "nat \<Rightarrow> bool" where
  "is_leap y = (y mod 4 = 0 \<and> (y mod 100 \<noteq> 0 \<or> y mod 400 = 0))"

definition days_before_year :: "nat \<Rightarrow> int" where
  "days_before_year y =
     (let p = int y - 1 in p * 365 + p div 4 - p div 100 + p div 400)"

definition DAYS_IN_MONTH :: "nat list" where
  "DAYS_IN_MONTH = [0, 31, 28, 31, 30, 31, 30, 31, 31, 30, 31, 30, 31]"

definition DAYS_BEFORE_MONTH :: "nat list" where
  "DAYS_BEFORE_MONTH = [0, 0, 31, 59, 90, 120, 151, 181, 212, 243, 273, 304, 334]"

definition days_in_month :: "nat \<Rightarrow> nat \<Rightarrow> nat" where
  "days_in_month y m = (if m = 2 \<and> is_leap y then 29 else DAYS_IN_MONTH ! m)"

definition days_before_month :: "nat \<Rightarrow> nat \<Rightarrow> nat" where
  "days_before_month y m = DAYS_BEFORE_MONTH ! m + (if 2 < m \<and> is_leap y then 1 else 0)"

definition ymd2ord :: "nat \<Rightarrow> nat \<Rightarrow> nat \<Rightarrow> int" where
  "ymd2ord y m d = days_before_year y + int (days_before_month y m) + int d"

definition toordinal :: "datetime \<Rightarrow> int" where
  "toordinal t = ymd2ord (year t) (month t) (day t)"

text \<open>
  The values a \<^verbatim>\<open>datetime\<close> object can hold: its constructor refuses everything else.
  The two tables are only read at months \<open>1..12\<close>.
\<close>

definition valid_datetime :: "datetime \<Rightarrow> bool" where
  "valid_datetime t =
     (1 \<le> year t \<and> year t \<le> 9999 \<and> 1 \<le> month t \<and> month t \<le> 12 \<and>
      1 \<le> day t \<and> day t \<le> days_in_month (year t) (month t) \<and>
      hour t < 24 \<and> minute t < 60 \<and> second t < 60 \<and> microsecond t < 1000000)"

text \<open>\<^verbatim>\<open>a < b\<close> on naive datetimes compares the seven fields as a tuple.\<close>

definition dt_tuple :: "datetime \<Rightarrow> nat \<times> nat \<times> nat \<times> nat \<times> nat \<times> nat \<times> nat" where
  "dt_tuple t = (year t, month t, day t, hour t, minute t, second t, microsecond t)"

definition dt_less :: "datetime \<Rightarrow> datetime \<Rightarrow> bool" where
  "dt_less a b = (dt_tuple a < dt_tuple b)"

text \<open>
  \<^verbatim>\<open>(a - b).days\<close>: the difference is a \<^verbatim>\<open>timedelta\<close> built from the differences of the
  ordinals, of the seconds of the day and of the microseconds; its normal form has
  \<^verbatim>\<open>0 <= seconds < 86400\<close> and \<^verbatim>\<open>0 <= microseconds < 1000000\<close>, so \<^verbatim>\<open>days\<close> is the floor of
  the difference in days. \<open>div\<close> on \<open>int\<close> is that floor.
\<close>

definition us_per_day :: int where
  "us_per_day = 86400000000"

definition to_us :: "datetime \<Rightarrow> int" where
  "to_us t = toordinal t * us_per_day
     + (int (second t) + int (minute t) * 60 + int (hour t) * 3600) * 1000000
     + int (microsecond t)"

definition days_between :: "datetime \<Rightarrow> datetime \<Rightarrow> int" where
  "days_between a b = (to_us a - to_us b) div us_per_day"

subsection \<open>Formatting\<close>

definition digit_char :: "nat \<Rightarrow> char" where
  "digit_char n = ''0123456789'' ! (n mod 10)"

definition pad2 :: "nat \<Rightarrow> string" where
  "pad2 n = [digit_char (n div 10), digit_char n]"

definition pad4 :: "nat \<Rightarrow> string" where
  "pad4 n = [digit_char (n div 1000), digit_char (n div 100), digit_char (n div 10), digit_char n]"

text \<open>\<^verbatim>\<open>now.strftime("%H:%M")\<close>.\<close>

definition strftime_HM :: "datetime \<Rightarrow> string" where
  "strftime_HM t = pad2 (hour t) @ '':'' @ pad2 (minute t)"

text \<open>
  \<^verbatim>\<open>now.strftime("%Y-%m-%d")\<close>. The year is written with four digits, which is what every
  platform prints from the year 1000 on.
\<close>

definition strftime_Ymd :: "datetime \<Rightarrow> string" where
  "strftime_Ymd t = pad4 (year t) @ ''-'' @ pad2 (month t) @ ''-'' @ pad2 (day t)"

subsection \<open>Parsing\<close>

text \<open>
  \<^verbatim>\<open>datetime.strptime(s, "%Y-%m-%d")\<close>. CPython turns the format into the regular expression
  \<^verbatim>\<open>(?P<Y>\d\d\d\d)-(?P<m>1[0-2]|0[1-9]|[1-9])-(?P<d>3[01]|[12]\d|0[1-9]|[1-9]| [1-9])\<close>,
  matches it at the start of the string, raises \<^verbatim>\<open>ValueError\<close> when it does not match or
  when text remains after the match, and then builds the date, which raises \<^verbatim>\<open>ValueError\<close>
  for year 0 and for a day the month does not have. The alternatives of a group are tried
  in order; a later alternative of the month can never succeed where an earlier one
  matched and the following \<^verbatim>\<open>-\<close> did not, so no backtracking is needed.
\<close>

definition is_digit :: "char \<Rightarrow> bool" where
  "is_digit c = (48 \<le> (of_char c :: nat) \<and> (of_char c :: nat) \<le> 57)"

definition digit_val :: "char \<Rightarrow> nat" where
  "digit_val c = of_char c - 48"

definition is_digit19 :: "char \<Rightarrow> bool" where
  "is_digit19 c = (49 \<le> (of_char c :: nat) \<and> (of_char c :: nat) \<le> 57)"

fun match_year :: "string \<Rightarrow> (nat \<times> string) option" where
  "match_year (a # b # c # d # rest) =
     (if is_digit a \<and> is_digit b \<and> is_digit c \<and> is_digit d
      then Some (digit_val a * 1000 + digit_val b * 100 + digit_val c * 10 + digit_val d, rest)
      else None)"
| "match_year _ = None"

fun match_month :: "string \<Rightarrow> (nat \<times> string) option" where
  "match_month (a # b # rest) =
     (if a = CHR ''1'' \<and> (b = CHR ''0'' \<or> b = CHR ''1'' \<or> b = CHR ''2'')
        then Some (10 + digit_val b, rest)
      else if a = CHR ''0'' \<and> is_digit19 b then Some (digit_val b, rest)
      else if is_digit19 a then Some (digit_val a, b # rest)
      else None)"
| "match_month [a] = (if is_digit19 a then Some (digit_val a, []) else None)"
| "match_month [] = None"

fun match_day :: "string \<Rightarrow> (nat \<times> string) option" where
  "match_day (a # b # rest) =
     (if a = CHR ''3'' \<and> (b = CHR ''0'' \<or> b = CHR ''1'') then Some (30 + digit_val b, rest)
      else if (a = CHR ''1'' \<or> a = CHR ''2'') \<and> is_digit b
        then Some (digit_val a * 10 + digit_val b, rest)
      else if a = CHR ''0'' \<and> is_digit19 b then Some (digit_val b, rest)
      else if is_digit19 a then Some (digit_val a, b # rest)
      else if a = CHR '' '' \<and> is_digit19 b then Some (digit_val b, rest)
      else None)"
| "match_day [a] = (if is_digit19 a then Some (digit_val a, []) else None)"
| "match_day [] = None"

fun match_dash :: "string \<Rightarrow> string option" where
  "match_dash (c # rest) = (if c = CHR ''-'' then Some rest else None)"
| "match_dash [] = None"

definition midnight :: "nat \<Rightarrow> nat \<Rightarrow> nat \<Rightarrow> datetime" where
  "midnight y m d =
     \<lparr>year = y, month = m, day = d, hour = 0, minute = 0, second = 0, microsecond = 0\<rparr>"

definition strptime_Ymd :: "string \<Rightarrow> exn + datetime" where
  "strptime_Ymd s =
     (case match_year s of None \<Rightarrow> Inl ValueError | Some (y, s1) \<Rightarrow>
     (case match_dash s1 of None \<Rightarrow> Inl ValueError | Some s2 \<Rightarrow>
     (case match_month s2 of None \<Rightarrow> Inl ValueError | Some (m, s3) \<Rightarrow>
     (case match_dash s3 of None \<Rightarrow> Inl ValueError | Some s4 \<Rightarrow>
     (case match_day s4 of None \<Rightarrow> Inl ValueError | Some (d, s5) \<Rightarrow>
        if s5 \<noteq> [] then Inl ValueError
        else if y < 1 \<or> days_in_month y m < d then Inl ValueError
        else Inr (midnight y m d))))))"

section \<open>Decoded JSON values\<close>

text \<open>
  What \<^verbatim>\<open>json.loads\<close> returns: \<^verbatim>\<open>None\<close>, a \<^verbatim>\<open>bool\<close>, an \<^verbatim>\<open>int\<close>, a \<^verbatim>\<open>str\<close>, a \<^verbatim>\<open>list\<close> or a
  \<^verbatim>\<open>dict\<close> with string keys (\<open>JObj\<close> holds the items of the dict in insertion order).
  Numbers with a fraction or an exponent decode to floats, which this type leaves out: the
  development covers the stored documents whose numbers are integers, as the prompt of
  \<^verbatim>\<open>parse_with_gemini\<close> asks for. The decoder itself is the standard library's; the functions
  below take it as the parameter \<open>json_loads\<close>, with \<open>Inl\<close> for the exception it raises.
\<close>

datatype json =
  JNull | JBool bool | JInt int | JStr string | JArr "json list" | JObj "(string \<times> json) list"

text \<open>
  \<^verbatim>\<open>v[key]\<close> with a string key: a \<^verbatim>\<open>dict\<close> answers or raises \<^verbatim>\<open>KeyError\<close>; a \<^verbatim>\<open>list\<close> and a \<^verbatim>\<open>str\<close>
  refuse a string index, the other values are not subscriptable: \<^verbatim>\<open>TypeError\<close>.
\<close>

fun subscript :: "json \<Rightarrow> string \<Rightarrow> exn + json" where
  "subscript (JObj items) key = (case map_of items key of None \<Rightarrow> Inl KeyError | Some v \<Rightarrow> Inr v)"
| "subscript _ key = Inl TypeError"

text \<open>
  \<^verbatim>\<open>for period in schedule\<close>: a list yields its elements, a dict its keys, a string its
  characters; the other values are not iterable.
\<close>

fun py_iter :: "json \<Rightarrow> exn + json list" where
  "py_iter (JArr xs) = Inr xs"
| "py_iter (JObj items) = Inr (map (\<lambda>kv. JStr (fst kv)) items)"
| "py_iter (JStr s) = Inr (map (\<lambda>c. JStr [c]) s)"
| "py_iter _ = Inl TypeError"

text \<open>
  The right operand of \<^verbatim>\<open>cumulative_days + duration\<close>: an \<^verbatim>\<open>int\<close>, or a \<^verbatim>\<open>bool\<close> (a subclass of
  \<^verbatim>\<open>int\<close>); every other decoded value makes the addition raise \<^verbatim>\<open>TypeError\<close>.
\<close>

fun py_num :: "json \<Rightarrow> int option" where
  "py_num (JInt i) = Some i"
| "py_num (JBool b) = Some (if b then 1 else 0)"
| "py_num _ = None"

text \<open>
  A tuple holding the value can be a member of a \<^verbatim>\<open>set\<close> only if the value is hashable:
  lists and dicts are not.
\<close>

fun hashable :: "json \<Rightarrow> bool" where
  "hashable (JArr xs) = False"
| "hashable (JObj items) = False"
| "hashable _ = True"

section \<open>The phase scan\<close>

text \<open>
  The loop that \<^verbatim>\<open>check_reminders\<close>, \<^verbatim>\<open>get_pending_pills\<close> and \<^verbatim>\<open>get_todaypills_message\<close> each
  contain:
  \<^verbatim>\<open>
  cumulative_days = 0
  for period in schedule:
      duration = period['duration_days']
      if cumulative_days <= days_since_start < cumulative_days + duration:
          ...; break
      cumulative_days += duration
  \<close>
  \<open>find_period\<close> returns the period at which the loop breaks, \<open>None\<close> when it runs to the
  end. A duration that is not a number raises \<^verbatim>\<open>TypeError\<close> on either path: in the
  comparison when its left half holds, in \<^verbatim>\<open>cumulative_days += duration\<close> when it does not.
\<close>

fun find_period :: "int \<Rightarrow> int \<Rightarrow> json list \<Rightarrow> exn + json option" where
  "find_period days_since_start cumulative_days [] = Inr None"
| "find_period days_since_start cumulative_days (period # rest) =
     (case subscript period ''duration_days'' of
        Inl e \<Rightarrow> Inl e
      | Inr duration \<Rightarrow>
         (case py_num duration of
            None \<Rightarrow> Inl TypeError
          | Some d \<Rightarrow>
              if cumulative_days \<le> days_since_start \<and> days_since_start < cumulative_days + d
              then Inr (Some period)
              else find_period days_since_start (cumulative_days + d) rest))"

section \<open>The database\<close>

text \<open>
  The two tables of \<^verbatim>\<open>init_db\<close>. Every column is \<^verbatim>\<open>TEXT NOT NULL\<close>; the surrogate key
  \<^verbatim>\<open>id INTEGER PRIMARY KEY AUTOINCREMENT\<close> is never read by the program and is left out.
  Neither table has a \<^verbatim>\<open>UNIQUE\<close> constraint. Rows are kept in insertion order, which is the
  order \<^verbatim>\<open>SELECT\<close> returns them in.
\<close>

record schedule_row =
  user_id :: string
  name :: string
  start_date :: string
  schedule_json :: string

record tracking_row =
  t_user_id :: string
  t_name :: string
  taken_date :: string
  taken_time :: string
  logged_at :: string

record db =
  schedules :: "schedule_row list"
  tracking :: "tracking_row list"

section \<open>The reminder matcher: \<^verbatim>\<open>check_reminders\<close>\<close>

text \<open>
  A reminder is one call of \<^verbatim>\<open>context.bot.send_message\<close>: the chat it goes to, the item and
  the dosage its text is formatted from, and the callback data of its button.
\<close>

record reminder =
  chat_id :: string
  item :: string
  dosage :: json
  callback_data :: string

text \<open>
  The body of the \<^verbatim>\<open>try\<close> for one row, up to the call of \<^verbatim>\<open>send_message\<close>: \<open>Inl e\<close> when it
  raises \<open>e\<close>, \<open>Inr None\<close> when it ends without sending, \<open>Inr (Some r)\<close> when it calls
  \<^verbatim>\<open>send_message\<close> with \<open>r\<close>. The statements run in the source's order: decode the schedule,
  parse the start date, \<^verbatim>\<open>continue\<close> before the start date, scan.
\<close>

definition due_reminder ::
  "(string \<Rightarrow> exn + json) \<Rightarrow> datetime \<Rightarrow> schedule_row \<Rightarrow> exn + reminder option" where
  "due_reminder json_loads now row =
     (case json_loads (schedule_json row) of
        Inl e \<Rightarrow> Inl e
      | Inr schedule \<Rightarrow>
     (case strptime_Ymd (start_date row) of
        Inl e \<Rightarrow> Inl e
      | Inr start \<Rightarrow>
          if dt_less now start then Inr None
          else
     (case py_iter schedule of
        Inl e \<Rightarrow> Inl e
      | Inr periods \<Rightarrow>
     (case find_period (days_between now start) 0 periods of
        Inl e \<Rightarrow> Inl e
      | Inr None \<Rightarrow> Inr None
      | Inr (Some period) \<Rightarrow>
     (case subscript period ''time'' of
        Inl e \<Rightarrow> Inl e
      | Inr t \<Rightarrow>
          if t = JStr (strftime_HM now)
          then
            (case subscript period ''dosage'' of
               Inl e \<Rightarrow> Inl e
             | Inr d \<Rightarrow>
                 Inr (Some \<lparr>chat_id = user_id row, item = name row, dosage = d,
                   callback_data = ''take|'' @ name row @ ''|'' @ strftime_HM now\<rparr>))
          else Inr None)))))"

text \<open>
  What one tick does, in order: the messages handed to \<^verbatim>\<open>send_message\<close> and the lines
  written by \<^verbatim>\<open>logger.error\<close>. \<open>send_ok r\<close> tells whether \<^verbatim>\<open>send_message\<close> returns; when it
  raises, the \<^verbatim>\<open>except\<close> of the same row logs it.
\<close>

datatype action = SendMessage reminder | LogError string exn

definition remind_row ::
  "(string \<Rightarrow> exn + json) \<Rightarrow> (reminder \<Rightarrow> bool) \<Rightarrow> datetime \<Rightarrow> schedule_row \<Rightarrow> action list" where
  "remind_row json_loads send_ok now row =
     (case due_reminder json_loads now row of
        Inl e \<Rightarrow> [LogError (user_id row) e]
      | Inr None \<Rightarrow> []
      | Inr (Some r) \<Rightarrow>
          if send_ok r then [SendMessage r]
          else [SendMessage r, LogError (user_id row) TelegramError])"

fun remind_all ::
  "(string \<Rightarrow> exn + json) \<Rightarrow> (reminder \<Rightarrow> bool) \<Rightarrow> datetime \<Rightarrow> schedule_row list \<Rightarrow> action list" where
  "remind_all json_loads send_ok now [] = []"
| "remind_all json_loads send_ok now (row # rows) =
     remind_row json_loads send_ok now row @ remind_all json_loads send_ok now rows"

definition check_reminders ::
  "(string \<Rightarrow> exn + json) \<Rightarrow> (reminder \<Rightarrow> bool) \<Rightarrow> datetime \<Rightarrow> db \<Rightarrow> action list" where
  "check_reminders json_loads send_ok now d = remind_all json_loads send_ok now (schedules d)"

fun sent :: "action list \<Rightarrow> reminder list" where
  "sent [] = []"
| "sent (SendMessage r # as) = r # sent as"
| "sent (LogError u e # as) = sent as"

section \<open>The pending list: \<^verbatim>\<open>get_pending_pills\<close>\<close>

text \<open>The dict \<^verbatim>\<open>{"name": name, "time": period['time']}\<close>.\<close>

record pill =
  p_name :: string
  p_time :: json

text \<open>
  The body of the \<^verbatim>\<open>try\<close> for one row. Here the start date is parsed first and the schedule
  is decoded only after the \<^verbatim>\<open>continue\<close>.
\<close>

definition pending_body ::
  "(string \<Rightarrow> exn + json) \<Rightarrow> datetime \<Rightarrow> schedule_row \<Rightarrow> exn + pill option" where
  "pending_body json_loads now row =
     (case strptime_Ymd (start_date row) of
        Inl e \<Rightarrow> Inl e
      | Inr start \<Rightarrow>
          if dt_less now start then Inr None
          else
     (case json_loads (schedule_json row) of
        Inl e \<Rightarrow> Inl e
      | Inr schedule \<Rightarrow>
     (case py_iter schedule of
        Inl e \<Rightarrow> Inl e
      | Inr periods \<Rightarrow>
     (case find_period (days_between now start) 0 periods of
        Inl e \<Rightarrow> Inl e
      | Inr None \<Rightarrow> Inr None
      | Inr (Some period) \<Rightarrow>
     (case subscript period ''time'' of
        Inl e \<Rightarrow> Inl e
      | Inr t \<Rightarrow> Inr (Some \<lparr>p_name = name row, p_time = t\<rparr>))))))"

text \<open>\<^verbatim>\<open>except Exception: pass\<close>: a row whose body raises adds nothing.\<close>

definition todays_pill ::
  "(string \<Rightarrow> exn + json) \<Rightarrow> datetime \<Rightarrow> schedule_row \<Rightarrow> pill option" where
  "todays_pill json_loads now row =
     (case pending_body json_loads now row of Inl e \<Rightarrow> None | Inr p \<Rightarrow> p)"

text \<open>
  \<^verbatim>\<open>SELECT name, taken_time FROM tracking WHERE user_id = ? AND taken_date = ?\<close>, as the set
  \<^verbatim>\<open>taken_pills\<close> of pairs. The second component is a string; a decoded value equals it only
  if it is that string, so the pairs are kept as \<open>(name, JStr time)\<close>.
\<close>

definition taken_pills :: "db \<Rightarrow> string \<Rightarrow> string \<Rightarrow> (string \<times> json) list" where
  "taken_pills d uid today_str =
     map (\<lambda>t. (t_name t, JStr (taken_time t)))
       (filter (\<lambda>t. t_user_id t = uid \<and> taken_date t = today_str) (tracking d))"

text \<open>
  The final list comprehension is outside the \<^verbatim>\<open>try\<close>: the membership test hashes the pair,
  and raises \<^verbatim>\<open>TypeError\<close> at the first pill whose time is a list or a dict.
\<close>

definition get_pending_pills ::
  "(string \<Rightarrow> exn + json) \<Rightarrow> db \<Rightarrow> datetime \<Rightarrow> string \<Rightarrow> exn + pill list" where
  "get_pending_pills json_loads d now uid =
     (let user_items = filter (\<lambda>r. user_id r = uid) (schedules d);
          taken = taken_pills d uid (strftime_Ymd now);
          todays_pills = List.map_filter (todays_pill json_loads now) user_items
      in if list_all (\<lambda>p. hashable (p_time p)) todays_pills
         then Inr (filter (\<lambda>p. (p_name p, p_time p) \<notin> set taken) todays_pills)
         else Inl TypeError)"

section \<open>Sorting by time\<close>

text \<open>
  \<^verbatim>\<open>sorted(pills, key=lambda x: x['time'])\<close> on hashable decoded values. Python's sort is
  stable and compares keys with \<^verbatim>\<open><\<close>: strings by code point, lexicographically; ints and
  bools as integers; \<^verbatim>\<open>None\<close> with nothing, and a string with a number not at all
  (\<^verbatim>\<open>TypeError\<close>). A list of at most one element is never compared. With two or more
  elements every element takes part in a comparison with an earlier one, so the sort raises
  unless all keys are strings or all are numbers. \<open>sort_key\<close> is the stable insertion
  sort of the library.
\<close>

fun is_str :: "json \<Rightarrow> bool" where
  "is_str (JStr s) = True"
| "is_str _ = False"

fun str_of :: "json \<Rightarrow> string" where
  "str_of (JStr s) = s"
| "str_of _ = []"

fun is_num :: "json \<Rightarrow> bool" where
  "is_num (JInt i) = True"
| "is_num (JBool b) = True"
| "is_num _ = False"

fun num_of :: "json \<Rightarrow> int" where
  "num_of (JInt i) = i"
| "num_of (JBool b) = (if b then 1 else 0)"
| "num_of _ = 0"

definition py_sorted :: "('a \<Rightarrow> json) \<Rightarrow> 'a list \<Rightarrow> exn + 'a list" where
  "py_sorted key xs =
     (if length xs \<le> 1 then Inr xs
      else if list_all (\<lambda>x. is_str (key x)) xs then Inr (sort_key (\<lambda>x. str_of (key x)) xs)
      else if list_all (\<lambda>x. is_num (key x)) xs then Inr (sort_key (\<lambda>x. num_of (key x)) xs)
      else Inl TypeError)"

section \<open>\<^verbatim>\<open>logpill_command\<close>\<close>

text \<open>
  The reply is either the text that everything is logged, or a keyboard with one button per
  pending pill, in sorted order, followed by \<^verbatim>\<open>Cancel\<close>. \<open>ChoosePill\<close> holds the pills of the
  buttons in order.
\<close>

datatype logpill_reply = EverythingLogged | ChoosePill "pill list"

definition logpill_command ::
  "(string \<Rightarrow> exn + json) \<Rightarrow> db \<Rightarrow> datetime \<Rightarrow> string \<Rightarrow> exn + logpill_reply" where
  "logpill_command json_loads d now uid =
     (case get_pending_pills json_loads d now uid of
        Inl e \<Rightarrow> Inl e
      | Inr pending_pills \<Rightarrow>
          if pending_pills = [] then Inr EverythingLogged
          else (case py_sorted p_time pending_pills of
                  Inl e \<Rightarrow> Inl e
                | Inr ps \<Rightarrow> Inr (ChoosePill ps)))"

section \<open>The today view: \<^verbatim>\<open>get_todaypills_message\<close>\<close>

text \<open>The dict \<^verbatim>\<open>{"name": name, "dosage": period['dosage'], "time": period['time']}\<close>.\<close>

record today_pill =
  tp_name :: string
  tp_dosage :: json
  tp_time :: json

definition today_body ::
  "(string \<Rightarrow> exn + json) \<Rightarrow> datetime \<Rightarrow> schedule_row \<Rightarrow> exn + today_pill option" where
  "today_body json_loads now row =
     (case strptime_Ymd (start_date row) of
        Inl e \<Rightarrow> Inl e
      | Inr start \<Rightarrow>
          if dt_less now start then Inr None
          else
     (case json_loads (schedule_json row) of
        Inl e \<Rightarrow> Inl e
      | Inr schedule \<Rightarrow>
     (case py_iter schedule of
        Inl e \<Rightarrow> Inl e
      | Inr periods \<Rightarrow>
     (case find_period (days_between now start) 0 periods of
        Inl e \<Rightarrow> Inl e
      | Inr None \<Rightarrow> Inr None
      | Inr (Some period) \<Rightarrow>
     (case subscript period ''dosage'' of
        Inl e \<Rightarrow> Inl e
      | Inr dz \<Rightarrow>
     (case subscript period ''time'' of
        Inl e \<Rightarrow> Inl e
      | Inr t \<Rightarrow> Inr (Some \<lparr>tp_name = name row, tp_dosage = dz, tp_time = t\<rparr>)))))))"

text \<open>
  The \<^verbatim>\<open>except\<close> of this loop writes a log line and goes on; the log is no part of the
  reply.
\<close>

definition todays_entry ::
  "(string \<Rightarrow> exn + json) \<Rightarrow> datetime \<Rightarrow> schedule_row \<Rightarrow> today_pill option" where
  "todays_entry json_loads now row =
     (case today_body json_loads now row of Inl e \<Rightarrow> None | Inr p \<Rightarrow> p)"

datatype status = Taken | Pending

text \<open>
  The reply: the text that nothing is due today, or one line per pill of today in sorted
  order, marked taken or pending (the keyboard has one button per pending line). The sort
  and the membership tests are outside the \<^verbatim>\<open>try\<close>. The source sorts first and then tests
  every pill of the sorted list; a time that is a list or a dict makes the test raise
  \<^verbatim>\<open>TypeError\<close> if the sort has not raised it already, so the model checks for one first.
\<close>

datatype today_reply = NoRemindersToday | TodayPills "(today_pill \<times> status) list"

definition get_todaypills_message ::
  "(string \<Rightarrow> exn + json) \<Rightarrow> db \<Rightarrow> datetime \<Rightarrow> string \<Rightarrow> exn + today_reply" where
  "get_todaypills_message json_loads d now uid =
     (let user_items = filter (\<lambda>r. user_id r = uid) (schedules d);
          taken = taken_pills d uid (strftime_Ymd now);
          todays_pills = List.map_filter (todays_entry json_loads now) user_items
      in if todays_pills = [] then Inr NoRemindersToday
         else if \<not> list_all (\<lambda>p. hashable (tp_time p)) todays_pills then Inl TypeError
         else (case py_sorted tp_time todays_pills of
                 Inl e \<Rightarrow> Inl e
               | Inr ps \<Rightarrow>
                   Inr (TodayPills
                     (map (\<lambda>p. (p, if (tp_name p, tp_time p) \<in> set taken then Taken else Pending))
                        ps))))"

section \<open>Logging a dose: \<^verbatim>\<open>log_selected_pill\<close>\<close>

text \<open>
  \<^verbatim>\<open>INSERT INTO tracking (user_id, name, taken_date, taken_time, logged_at) VALUES (...)\<close>.
  The table of \<^verbatim>\<open>init_db\<close> constrains nothing but \<^verbatim>\<open>NOT NULL\<close>, and the handler binds five
  strings, so the statement appends the row and never raises.
\<close>

definition insert_tracking :: "db \<Rightarrow> tracking_row \<Rightarrow> exn + db" where
  "insert_tracking d r = Inr (d\<lparr>tracking := tracking d @ [r]\<rparr>)"

text \<open>\<^verbatim>\<open>s.rsplit(sep, 1)\<close> where \<open>sep\<close> occurs: the text before and after its last occurrence.\<close>

fun split_first :: "string \<Rightarrow> string \<Rightarrow> (string \<times> string) option" where
  "split_first sep [] = None"
| "split_first sep (c # cs) =
     (if take (length sep) (c # cs) = sep then Some ([], drop (length sep) (c # cs))
      else (case split_first sep cs of None \<Rightarrow> None | Some (a, b) \<Rightarrow> Some (c # a, b)))"

definition rsplit1 :: "string \<Rightarrow> string \<Rightarrow> (string \<times> string) option" where
  "rsplit1 sep s =
     (case split_first (rev sep) (rev s) of None \<Rightarrow> None | Some (a, b) \<Rightarrow> Some (rev b, rev a))"

definition lower_char :: "char \<Rightarrow> char" where
  "lower_char c =
     (if 65 \<le> (of_char c :: nat) \<and> (of_char c :: nat) \<le> 90 then char_of (of_char c + 32 :: nat) else c)"

definition pad6 :: "nat \<Rightarrow> string" where
  "pad6 n = [digit_char (n div 100000), digit_char (n div 10000), digit_char (n div 1000),
     digit_char (n div 100), digit_char (n div 10), digit_char n]"

text \<open>\<^verbatim>\<open>datetime.isoformat()\<close>: the fraction is written only when it is not zero.\<close>

definition isoformat :: "datetime \<Rightarrow> string" where
  "isoformat t =
     strftime_Ymd t @ ''T'' @ pad2 (hour t) @ '':'' @ pad2 (minute t) @ '':'' @ pad2 (second t)
       @ (if microsecond t = 0 then [] else ''.'' @ pad6 (microsecond t))"

text \<open>
  The replies of the handler: \<open>Cancelled\<close> for the early return, \<open>Logged\<close> for
  \<^verbatim>\<open>Logged '...' as taken!\<close>, \<open>AlreadyLogged\<close> for the reply of
  \<^verbatim>\<open>except sqlite3.IntegrityError\<close>, \<open>LogFailed\<close> for the reply of \<^verbatim>\<open>except Exception\<close>
  (a choice without \<^verbatim>\<open>" ("\<close> cannot be unpacked into two names). The clock is read twice,
  for the date and for the timestamp.
\<close>

datatype log_reply = Cancelled | Logged string | AlreadyLogged string | LogFailed

definition log_selected_pill ::
  "db \<Rightarrow> datetime \<Rightarrow> datetime \<Rightarrow> string \<Rightarrow> string \<Rightarrow> db \<times> log_reply" where
  "log_selected_pill d now now' uid choice =
     (if map lower_char choice = ''cancel'' then (d, Cancelled)
      else
        (case rsplit1 '' ('' choice of
           None \<Rightarrow> (d, LogFailed)
         | Some (pill_name, pill_time) \<Rightarrow>
             (case insert_tracking d
                     \<lparr>t_user_id = uid, t_name = pill_name, taken_date = strftime_Ymd now,
                      taken_time = butlast pill_time, logged_at = isoformat now'\<rparr> of
                Inl IntegrityError \<Rightarrow> (d, AlreadyLogged pill_name)
              | Inl e \<Rightarrow> (d, LogFailed)
              | Inr d' \<Rightarrow> (d', Logged pill_name))))"

text \<open>The tracking rows of one dose slot.\<close>

definition slot_rows :: "db \<Rightarrow> string \<Rightarrow> string \<Rightarrow> string \<Rightarrow> string \<Rightarrow> tracking_row list" where
  "slot_rows d uid nm date time =
     filter (\<lambda>t. t_user_id t = uid \<and> t_name t = nm \<and> taken_date t = date \<and> taken_time t = time)
       (tracking d)"

section \<open>Deleting a schedule: \<^verbatim>\<open>delete_selected_pill\<close>\<close>

text \<open>
  \<^verbatim>\<open>DELETE FROM schedules WHERE user_id = ? AND name = ?\<close> with its \<^verbatim>\<open>cursor.rowcount\<close>.
\<close>

definition delete_schedules :: "db \<Rightarrow> string \<Rightarrow> string \<Rightarrow> db \<times> nat" where
  "delete_schedules d uid nm =
     (d\<lparr>schedules := filter (\<lambda>r. \<not> (user_id r = uid \<and> name r = nm)) (schedules d)\<rparr>,
      length (filter (\<lambda>r. user_id r = uid \<and> name r = nm) (schedules d)))"

datatype delete_reply = DeleteSuccess string | DeleteError

definition delete_selected_pill :: "db \<Rightarrow> string \<Rightarrow> string \<Rightarrow> db \<times> delete_reply" where
  "delete_selected_pill d uid choice =
     (case delete_schedules d uid choice of
        (d', rowcount) \<Rightarrow> (d', if rowcount > 0 then DeleteSuccess choice else DeleteError))"

section \<open>The specification's side\<close>

text \<open>
  The definitions of this section follow the words of the specification, not the source;
  the theorems compare them with the functions above.
\<close>

subsection \<open>Cumulative windows\<close>

text \<open>
  A period has a duration when its \<^verbatim>\<open>duration_days\<close> is a number. The window of the \<open>i\<close>-th
  period starts at the sum of the durations before it and is as long as its own duration;
  the resolver's answer is the first period whose window contains the elapsed days.
\<close>

definition has_duration :: "json \<Rightarrow> bool" where
  "has_duration p =
     (case subscript p ''duration_days'' of Inl e \<Rightarrow> False | Inr v \<Rightarrow> py_num v \<noteq> None)"

definition duration_of :: "json \<Rightarrow> int" where
  "duration_of p =
     (case subscript p ''duration_days'' of
        Inl e \<Rightarrow> 0
      | Inr v \<Rightarrow> (case py_num v of None \<Rightarrow> 0 | Some d \<Rightarrow> d))"

definition window_start :: "json list \<Rightarrow> nat \<Rightarrow> int" where
  "window_start ps i = sum_list (map duration_of (take i ps))"

definition in_window :: "int \<Rightarrow> json list \<Rightarrow> nat \<Rightarrow> bool" where
  "in_window elapsed ps i =
     (window_start ps i \<le> elapsed \<and> elapsed < window_start ps i + duration_of (ps ! i))"

definition first_in_window :: "int \<Rightarrow> json list \<Rightarrow> json option" where
  "first_in_window elapsed ps =
     map_option (nth ps) (List.find (in_window elapsed ps) [0..<length ps])"

subsection \<open>The phase that is due at a tick\<close>

text \<open>
  A stored phase as the data model describes it: a duration, a dose and a time of day.
\<close>

definition is_phase :: "json \<Rightarrow> bool" where
  "is_phase p =
     (has_duration p
      \<and> (case subscript p ''dosage'' of Inl e \<Rightarrow> False | Inr v \<Rightarrow> True)
      \<and> (case subscript p ''time'' of Inl e \<Rightarrow> False | Inr v \<Rightarrow> True))"

text \<open>
  The phase of a stored schedule that is due at the instant \<open>now\<close>: the schedule is a list of
  phases, \<open>now\<close> is not before its start date, and the active phase's time of day is the
  wall-clock time of \<open>now\<close>, cut to the minute.
\<close>

definition due_phase :: "(string \<Rightarrow> exn + json) \<Rightarrow> datetime \<Rightarrow> schedule_row \<Rightarrow> json option" where
  "due_phase json_loads now row =
     (case json_loads (schedule_json row) of
        Inr (JArr periods) \<Rightarrow>
          (case strptime_Ymd (start_date row) of
             Inl e \<Rightarrow> None
           | Inr start \<Rightarrow>
               if to_us now < to_us start then None
               else (case first_in_window (days_between now start) periods of
                       None \<Rightarrow> None
                     | Some p \<Rightarrow>
                         if subscript p ''time'' = Inr (JStr (strftime_HM now)) then Some p
                         else None))
      | _ \<Rightarrow> None)"

text \<open>The reminder event \<open>(owner_id, name, dose, time_of_day)\<close> of a phase.\<close>

definition reminder_of :: "schedule_row \<Rightarrow> json \<Rightarrow> reminder" where
  "reminder_of row p =
     \<lparr>chat_id = user_id row, item = name row,
      dosage = (case subscript p ''dosage'' of Inl e \<Rightarrow> JNull | Inr v \<Rightarrow> v),
      callback_data = ''take|'' @ name row @ ''|''
        @ (case subscript p ''time'' of Inl e \<Rightarrow> [] | Inr v \<Rightarrow> str_of v)\<rparr>"

subsection \<open>Times of day\<close>

text \<open>A zero-padded \<^verbatim>\<open>HH:MM\<close> with \<open>HH < 24\<close> and \<open>MM < 60\<close>.\<close>

fun is_HHMM :: "string \<Rightarrow> bool" where
  "is_HHMM [a, b, c, d, e] =
     (is_digit a \<and> is_digit b \<and> c = CHR '':'' \<and> is_digit d \<and> is_digit e
      \<and> digit_val a * 10 + digit_val b < 24 \<and> digit_val d * 10 + digit_val e < 60)"
| "is_HHMM _ = False"

definition tod_us :: "datetime \<Rightarrow> int" where
  "tod_us t = (int (second t) + int (minute t) * 60 + int (hour t) * 3600) * 1000000
     + int (microsecond t)"

section \<open>Example data\<close>

text \<open>
  Stored documents used in the examples, and the values \<^verbatim>\<open>json.loads\<close> gives them; every
  other text is taken as undecodable.
\<close>

definition doc_AB :: string where
  \<open>doc_AB = ''[{"duration_days": 3, "dosage": "A", "time": "08:00"}, {"duration_days": 9999, "dosage": "B", "time": "08:00"}]''\<close>

definition doc_evening :: string where
  \<open>doc_evening = ''[{"duration_days": 9999, "dosage": "1 tablet", "time": "20:00"}]''\<close>

definition doc_unpadded :: string where
  \<open>doc_unpadded = ''[{"duration_days": 9999, "dosage": "C", "time": "8:00"}]''\<close>

definition doc_no_duration :: string where
  \<open>doc_no_duration = ''[{"dosage": "D", "time": "08:00"}]''\<close>

definition phase_obj :: "int \<Rightarrow> string \<Rightarrow> string \<Rightarrow> json" where
  "phase_obj n dose time =
     JObj [(''duration_days'', JInt n), (''dosage'', JStr dose), (''time'', JStr time)]"

definition example_loads :: "string \<Rightarrow> exn + json" where
  "example_loads s =
     (if s = doc_AB then Inr (JArr [phase_obj 3 ''A'' ''08:00'', phase_obj 9999 ''B'' ''08:00''])
      else if s = doc_evening then Inr (JArr [phase_obj 9999 ''1 tablet'' ''20:00''])
      else if s = doc_unpadded then Inr (JArr [phase_obj 9999 ''C'' ''8:00''])
      else if s = doc_no_duration
        then Inr (JArr [JObj [(''dosage'', JStr ''D''), (''time'', JStr ''08:00'')]])
      else Inl JSONDecodeError)"

definition at :: "nat \<Rightarrow> nat \<Rightarrow> nat \<Rightarrow> nat \<Rightarrow> nat \<Rightarrow> datetime" where
  "at y m d h mi =
     \<lparr>year = y, month = m, day = d, hour = h, minute = mi, second = 0, microsecond = 0\<rparr>"

definition stored :: "string \<Rightarrow> string \<Rightarrow> string \<Rightarrow> string \<Rightarrow> schedule_row" where
  "stored uid nm start doc =
     \<lparr>user_id = uid, name = nm, start_date = start, schedule_json = doc\<rparr>"

definition always_delivered :: "reminder \<Rightarrow> bool" where
  "always_delivered r = True"

text \<open>The start date 2024-01-01 and four instants around it.\<close>

definition jan_1 :: datetime where
  "jan_1 = midnight 2024 1 1"

definition dec_31_0800 :: datetime where
  "dec_31_0800 = at 2023 12 31 8 0"

definition jan_5_0800 :: datetime where
  "jan_5_0800 = at 2024 1 5 8 0"

definition jan_5_0801 :: datetime where
  "jan_5_0801 = at 2024 1 5 8 1"

definition jan_5_2000 :: datetime where
  "jan_5_2000 = at 2024 1 5 20 0"

text \<open>The row that logging \<^verbatim>\<open>Vitamin (08:00)\<close> for user 42 at 2024-01-05 08:01 inserts.\<close>

definition vitamin_taken :: tracking_row where
  "vitamin_taken =
     \<lparr>t_user_id = ''42'', t_name = ''Vitamin'', taken_date = ''2024-01-05'',
      taken_time = ''08:00'', logged_at = ''2024-01-05T08:01:00''\<rparr>"

definition vitamin :: schedule_row where
  "vitamin = stored ''42'' ''Vitamin'' ''2024-01-01'' doc_AB"

definition evening :: schedule_row where
  "evening = stored ''42'' ''Evening'' ''2024-01-01'' doc_evening"

section \<open>Calendar arithmetic\<close>

text \<open>
  The ordinal of a date grows with the date, so comparing two datetimes field by field is
  comparing their distances from the epoch.
\<close>

lemma leap_arith:
  fixes p a4 b4 a100 b100 a400 b400 :: int
  assumes "a4 = b4 + (if A then 1 else 0)"
    and "a100 = b100 + (if B then 1 else 0)"
    and "a400 = b400 + (if C then 1 else 0)"
    and "B \<Longrightarrow> A" and "C \<Longrightarrow> B"
  shows "p * 365 + a4 - a100 + a400
       = (p - 1) * 365 + b4 - b100 + b400 + (if A \<and> (\<not> B \<or> C) then 366 else 365)"
proof -
  have "(p - 1) * 365 = p * 365 - 365" by (simp add: left_diff_distrib)
  then show ?thesis
    using assms(4,5) unfolding assms(1-3)
    by (cases A; cases B; cases C; simp)
qed

lemma int_div_step:
  assumes "0 < k"
  shows "(p::int) div k = (p - 1) div k + (if p mod k = 0 then 1 else 0)"
proof (cases "p mod k = 0")
  case True
  then have p: "p = k * (p div k)" using mult_div_mod_eq [of k p] by simp
  have "p - 1 = k * (p div k - 1) + (k - 1)"
    using p by (simp add: algebra_simps)
  from int_div_pos_eq [OF this] assms have "(p - 1) div k = p div k - 1" by simp
  with True show ?thesis by simp
next
  case False
  have m: "0 \<le> p mod k" "p mod k < k" using assms by simp_all
  with False have r: "0 \<le> p mod k - 1" "p mod k - 1 < k" by simp_all
  have "p - 1 = k * (p div k) + (p mod k - 1)" by simp
  from int_div_pos_eq [OF this r] False show ?thesis by simp
qed

lemma nat_mod_zero_int: "(y mod n = 0) = (int y mod int n = 0)"
  by (metis of_nat_mod of_nat_eq_0_iff)

lemma days_before_year_Suc:
  assumes "1 \<le> y"
  shows "days_before_year (Suc y) = days_before_year y + (if is_leap y then 366 else 365)"
proof -
  define p where "p = int y"
  have m: "(y mod 4 = 0) = (p mod 4 = 0)" "(y mod 100 = 0) = (p mod 100 = 0)"
    "(y mod 400 = 0) = (p mod 400 = 0)"
    unfolding p_def by (simp_all add: nat_mod_zero_int)
  have i1: "p mod 100 = 0 \<Longrightarrow> p mod 4 = 0" using mod_mod_cancel [of 4 100 p] by simp
  have i2: "p mod 400 = 0 \<Longrightarrow> p mod 100 = 0" using mod_mod_cancel [of 100 400 p] by simp
  have e: "int (Suc y) - 1 = p" "int y - 1 = p - 1" by (simp_all add: p_def)
  have "p * 365 + p div 4 - p div 100 + p div 400
      = (p - 1) * 365 + (p - 1) div 4 - (p - 1) div 100 + (p - 1) div 400
        + (if p mod 4 = 0 \<and> (\<not> p mod 100 = 0 \<or> p mod 400 = 0) then 366 else 365)"
    by (rule leap_arith [OF int_div_step int_div_step int_div_step i1 i2]) simp_all
  then show ?thesis
    unfolding days_before_year_def Let_def e is_leap_def m .
qed

lemma days_before_year_mono:
  assumes "1 \<le> y1" "y1 < y2"
  shows "days_before_year y1 + (if is_leap y1 then 366 else 365) \<le> days_before_year y2"
  using assms(2,1)
proof (induction y2)
  case 0
  then show ?case by simp
next
  case (Suc y2)
  show ?case
  proof (cases "y1 = y2")
    case True
    with Suc.prems show ?thesis by (simp add: days_before_year_Suc)
  next
    case False
    with Suc.prems have "y1 < y2" by simp
    from Suc.IH [OF this Suc.prems(2)] Suc.prems
    show ?thesis by (simp add: days_before_year_Suc split: if_splits)
  qed
qed


lemma month_cases:
  "1 \<le> m \<Longrightarrow> m \<le> 12 \<Longrightarrow>
   m = 1 \<or> m = 2 \<or> m = 3 \<or> m = 4 \<or> m = 5 \<or> m = 6 \<or> m = 7 \<or> m = 8 \<or> m = 9 \<or> m = 10 \<or> m = 11 \<or> m = (12::nat)"
  by arith


lemma days_before_month_Suc:
  "1 \<le> m \<Longrightarrow> m < 12 \<Longrightarrow> days_before_month y (Suc m) = days_before_month y m + days_in_month y m"
  using month_cases [of m]
  by (auto simp: days_before_month_def days_in_month_def DAYS_BEFORE_MONTH_def DAYS_IN_MONTH_def)


lemma days_before_month_mono:
  assumes "1 \<le> m1" "m1 < m2" "m2 \<le> 12"
  shows "days_before_month y m1 + days_in_month y m1 \<le> days_before_month y m2"
  using assms(2,1,3)
proof (induction m2)
  case 0
  then show ?case by simp
next
  case (Suc m2)
  show ?case
  proof (cases "m1 = m2")
    case True
    with Suc.prems show ?thesis by (simp add: days_before_month_Suc)
  next
    case False
    with Suc.prems have lt: "m1 < m2" and le: "m2 \<le> 12" by simp_all
    from Suc.IH [OF lt Suc.prems(2) le] Suc.prems lt
    show ?thesis by (simp add: days_before_month_Suc)
  qed
qed


lemma day_of_year_le:
  assumes "1 \<le> m" "m \<le> 12" "d \<le> days_in_month y m"
  shows "days_before_month y m + d \<le> (if is_leap y then 366 else 365)"
  using month_cases [OF assms(1,2)] assms(3)
  by (auto simp: days_before_month_def days_in_month_def DAYS_BEFORE_MONTH_def DAYS_IN_MONTH_def
      split: if_splits)


lemma lex_less_iff: "((a::nat, b::'b::linorder) < (c, d)) = (a < c \<or> a = c \<and> b < d)"
  by auto


lemma lex_le_iff: "((a::nat, b::'b::linorder) \<le> (c, d)) = (a < c \<or> a = c \<and> b \<le> d)"
  by auto



lemma toordinal_mono:
  assumes "valid_datetime a" "valid_datetime b"
    and "(year a, month a, day a) < (year b, month b, day b)"
  shows "toordinal a < toordinal b"
proof -
  consider (y) "year a < year b"
    | (m) "year a = year b" "month a < month b"
    | (d) "year a = year b" "month a = month b" "day a < day b"
    using assms(3) unfolding lex_less_iff by blast
  then show ?thesis
  proof cases
    case y
    have "days_before_year (year a) + (if is_leap (year a) then 366 else 365)
          \<le> days_before_year (year b)"
      using assms(1) y by (intro days_before_year_mono) (simp_all add: valid_datetime_def)
    moreover have "days_before_month (year a) (month a) + day a
          \<le> (if is_leap (year a) then 366 else 365)"
      using assms(1) by (intro day_of_year_le) (simp_all add: valid_datetime_def)
    moreover have "1 \<le> day b" using assms(2) by (simp add: valid_datetime_def)
    ultimately show ?thesis
      by (simp add: toordinal_def ymd2ord_def split: if_splits)
  next
    case m
    have "days_before_month (year a) (month a) + days_in_month (year a) (month a)
          \<le> days_before_month (year a) (month b)"
      using assms(1,2) m by (intro days_before_month_mono) (simp_all add: valid_datetime_def)
    moreover have "day a \<le> days_in_month (year a) (month a)" "1 \<le> day b"
      using assms(1,2) by (simp_all add: valid_datetime_def)
    ultimately show ?thesis using m
      by (simp add: toordinal_def ymd2ord_def)
  next
    case d
    then show ?thesis by (simp add: toordinal_def ymd2ord_def)
  qed
qed



lemma tod_us_bounds: "valid_datetime t \<Longrightarrow> 0 \<le> tod_us t \<and> tod_us t < us_per_day"
  by (simp add: valid_datetime_def tod_us_def us_per_day_def)

lemma tod_us_mono:
  assumes "valid_datetime a" "valid_datetime b"
    and "(hour a, minute a, second a, microsecond a) \<le> (hour b, minute b, second b, microsecond b)"
  shows "tod_us a \<le> tod_us b"
proof -
  have b: "minute a < 60" "second a < 60" "microsecond a < 1000000"
    "minute b < 60" "second b < 60" "microsecond b < 1000000"
    using assms(1,2) by (simp_all add: valid_datetime_def)
  from assms(3) consider "hour a < hour b" | "hour a = hour b" "minute a < minute b"
    | "hour a = hour b" "minute a = minute b" "second a < second b"
    | "hour a = hour b" "minute a = minute b" "second a = second b" "microsecond a \<le> microsecond b"
    unfolding lex_le_iff lex_less_iff by blast
  then show ?thesis using b by cases (simp_all add: tod_us_def)
qed

lemma to_us_mono:
  assumes "valid_datetime a" "valid_datetime b" "\<not> dt_less a b"
  shows "to_us b \<le> to_us a"
proof -
  have le: "dt_tuple b \<le> dt_tuple a" using assms(3) by (simp add: dt_less_def)
  have us: "to_us a = toordinal a * us_per_day + tod_us a" "to_us b = toordinal b * us_per_day + tod_us b"
    by (simp_all add: to_us_def tod_us_def)
  consider (lt) "(year b, month b, day b) < (year a, month a, day a)"
    | (eq) "(year b, month b, day b) = (year a, month a, day a)"
      "(hour b, minute b, second b, microsecond b) \<le> (hour a, minute a, second a, microsecond a)"
    using le unfolding dt_tuple_def lex_le_iff lex_less_iff by blast
  then show ?thesis
  proof cases
    case lt
    from toordinal_mono [OF assms(2,1) lt] have "toordinal b + 1 \<le> toordinal a" by simp
    then have "(toordinal b + 1) * us_per_day \<le> toordinal a * us_per_day"
      by (simp add: us_per_day_def)
    with tod_us_bounds [OF assms(1)] tod_us_bounds [OF assms(2)] show ?thesis
      unfolding us by (simp add: algebra_simps)
  next
    case eq
    from eq(1) have "toordinal a = toordinal b" by (simp add: toordinal_def)
    with tod_us_mono [OF assms(2,1) eq(2)] show ?thesis unfolding us by simp
  qed
qed



lemma digit_val_le: "is_digit c \<Longrightarrow> digit_val c \<le> 9"
  by (auto simp: is_digit_def digit_val_def)

lemma digit19_val: "is_digit19 c \<Longrightarrow> 1 \<le> digit_val c \<and> digit_val c \<le> 9"
  by (auto simp: is_digit19_def digit_val_def)

lemma match_year_bound: "match_year s = Some (y, r) \<Longrightarrow> y \<le> 9999"
proof (induction s rule: match_year.induct)
  case (1 a b c d rest)
  then show ?case
    using digit_val_le [of a] digit_val_le [of b] digit_val_le [of c] digit_val_le [of d]
    by (auto split: if_splits)
qed simp_all

lemma match_month_bound: "match_month s = Some (m, r) \<Longrightarrow> 1 \<le> m \<and> m \<le> 12"
proof (induction s rule: match_month.induct)
  case (1 a b rest)
  then show ?case
    using digit19_val [of a] digit19_val [of b]
    by (auto simp: digit_val_def split: if_splits)
next
  case (2 a)
  then show ?case using digit19_val [of a] by (auto split: if_splits)
qed simp

lemma match_day_bound: "match_day s = Some (d, r) \<Longrightarrow> 1 \<le> d"
proof (induction s rule: match_day.induct)
  case (1 a b rest)
  then show ?case
    using digit19_val [of a] digit19_val [of b]
    by (auto simp: digit_val_def split: if_splits)
next
  case (2 a)
  then show ?case using digit19_val [of a] by (auto split: if_splits)
qed simp

lemma strptime_Ymd_valid:
  assumes "strptime_Ymd s = Inr t"
  shows "valid_datetime t \<and> hour t = 0 \<and> minute t = 0 \<and> second t = 0 \<and> microsecond t = 0"
proof -
  from assms obtain y m d s1 s3 s5 where
    my: "match_year s = Some (y, s1)" and mm: "match_month (the (match_dash s1)) = Some (m, s3)"
    and md: "match_day (the (match_dash s3)) = Some (d, s5)"
    and ok: "\<not> (y < 1 \<or> days_in_month y m < d)" and t: "t = midnight y m d"
    by (auto simp: strptime_Ymd_def split: option.splits if_splits)
  from match_year_bound [OF my] match_month_bound [OF mm] match_day_bound [OF md] ok
  show ?thesis unfolding t by (simp add: valid_datetime_def midnight_def)
qed


lemma tod_us_strict:
  assumes "valid_datetime a" "valid_datetime b"
    and "(hour a, minute a, second a, microsecond a) < (hour b, minute b, second b, microsecond b)"
  shows "tod_us a < tod_us b"
proof -
  have b: "minute a < 60" "second a < 60" "microsecond a < 1000000"
    "minute b < 60" "second b < 60" "microsecond b < 1000000"
    using assms(1,2) by (simp_all add: valid_datetime_def)
  from assms(3) consider "hour a < hour b" | "hour a = hour b" "minute a < minute b"
    | "hour a = hour b" "minute a = minute b" "second a < second b"
    | "hour a = hour b" "minute a = minute b" "second a = second b" "microsecond a < microsecond b"
    unfolding lex_less_iff by blast
  then show ?thesis using b by cases (simp_all add: tod_us_def)
qed

lemma to_us_strict:
  assumes "valid_datetime a" "valid_datetime b" "dt_less a b"
  shows "to_us a < to_us b"
proof -
  have less: "dt_tuple a < dt_tuple b" using assms(3) by (simp add: dt_less_def)
  have us: "to_us a = toordinal a * us_per_day + tod_us a"
    "to_us b = toordinal b * us_per_day + tod_us b"
    by (simp_all add: to_us_def tod_us_def)
  consider (lt) "(year a, month a, day a) < (year b, month b, day b)"
    | (eq) "(year a, month a, day a) = (year b, month b, day b)"
      "(hour a, minute a, second a, microsecond a) < (hour b, minute b, second b, microsecond b)"
    using less unfolding dt_tuple_def lex_less_iff by blast
  then show ?thesis
  proof cases
    case lt
    from toordinal_mono [OF assms(1,2) lt] have "toordinal a + 1 \<le> toordinal b" by simp
    then have "(toordinal a + 1) * us_per_day \<le> toordinal b * us_per_day"
      by (simp add: us_per_day_def)
    with tod_us_bounds [OF assms(1)] tod_us_bounds [OF assms(2)] show ?thesis
      unfolding us by (simp add: algebra_simps)
  next
    case eq
    from eq(1) have "toordinal a = toordinal b" by (simp add: toordinal_def)
    with tod_us_strict [OF assms(1,2) eq(2)] show ?thesis unfolding us by simp
  qed
qed

lemma dt_less_iff:
  assumes "valid_datetime a" "valid_datetime b"
  shows "dt_less a b = (to_us a < to_us b)"
  using to_us_strict [OF assms] to_us_mono [OF assms] by fastforce

lemma days_between_truncates:
  assumes "to_us b \<le> to_us a"
  shows "days_between a b = (to_us a - to_us b) sdiv us_per_day \<and> 0 \<le> days_between a b"
proof -
  have "0 \<le> to_us a - to_us b" using assms by simp
  then show ?thesis
    unfolding days_between_def signed_divide_int_def
    by (simp add: us_per_day_def sgn_if pos_imp_zdiv_nonneg_iff)
qed

section \<open>The scan and the windows\<close>

text \<open>
  Whenever the loop ends without raising, it has found the first period whose cumulative
  window contains the elapsed days, or none if there is no such period.
\<close>

lemma find_map_Suc: "List.find P (map Suc xs) = map_option Suc (List.find (\<lambda>i. P (Suc i)) xs)"
  by (induction xs) simp_all

lemma window_start_Cons: "window_start (p # ps) (Suc i) = duration_of p + window_start ps i"
  by (simp add: window_start_def)

lemma in_window_Cons_Suc:
  "in_window e (p # ps) (Suc i) = in_window (e - duration_of p) ps i"
  by (auto simp: in_window_def window_start_Cons)

lemma in_window_Cons_0: "in_window e (p # ps) 0 = (0 \<le> e \<and> e < duration_of p)"
  by (simp add: in_window_def window_start_def)

lemma first_in_window_Nil: "first_in_window e [] = None"
  by (simp add: first_in_window_def)

lemma first_in_window_Cons:
  "first_in_window e (p # ps) =
     (if 0 \<le> e \<and> e < duration_of p then Some p else first_in_window (e - duration_of p) ps)"
proof -
  have u: "[0..<length (p # ps)] = 0 # map Suc [0..<length ps]"
    unfolding map_Suc_upt by (simp add: upt_conv_Cons del: upt_Suc)
  show ?thesis
    unfolding first_in_window_def u
    by (simp add: in_window_Cons_0 in_window_Cons_Suc find_map_Suc option.map_comp comp_def)
qed

lemma find_period_first_in_window:
  "find_period e c ps = Inr r \<Longrightarrow> first_in_window (e - c) ps = r"
proof (induction ps arbitrary: c)
  case Nil
  then show ?case by (simp add: first_in_window_Nil)
next
  case (Cons p ps)
  from Cons.prems obtain v d where v: "subscript p ''duration_days'' = Inr v" and d: "py_num v = Some d"
    by (auto split: sum.splits option.splits)
  then have dur: "duration_of p = d" by (simp add: duration_of_def)
  show ?case
  proof (cases "c \<le> e \<and> e < c + d")
    case True
    with Cons.prems v d dur show ?thesis by (auto simp: first_in_window_Cons)
  next
    case False
    with Cons.prems v d have "find_period e (c + d) ps = Inr r" by simp
    from Cons.IH [OF this] False dur show ?thesis
      by (auto simp: first_in_window_Cons algebra_simps)
  qed
qed

lemma find_period_total:
  "list_all has_duration ps \<Longrightarrow> \<exists>r. find_period e c ps = Inr r"
proof (induction ps arbitrary: c)
  case Nil
  then show ?case by simp
next
  case (Cons p ps)
  then obtain v d where "subscript p ''duration_days'' = Inr v" "py_num v = Some d"
    by (auto simp: has_duration_def split: sum.splits)
  with Cons show ?case by auto
qed

lemma find_period_resolves:
  assumes "list_all has_duration ps"
  shows "find_period e 0 ps = Inr (first_in_window e ps)"
  using find_period_total [OF assms, of e 0] find_period_first_in_window [of e 0 ps] by auto


section \<open>Evaluating the examples\<close>

lemmas calendar_defs = to_us_def toordinal_def ymd2ord_def days_before_year_def
  days_before_month_def days_in_month_def DAYS_BEFORE_MONTH_def DAYS_IN_MONTH_def is_leap_def
  us_per_day_def days_between_def valid_datetime_def at_def midnight_def dt_less_def dt_tuple_def

lemmas parse_defs = strptime_Ymd_def is_digit_def is_digit19_def digit_val_def

lemmas format_defs = strftime_HM_def strftime_Ymd_def pad2_def pad4_def digit_char_def

lemma stored_sel:
  "user_id (stored u n s doc) = u"
  "name (stored u n s doc) = n"
  "start_date (stored u n s doc) = s"
  "schedule_json (stored u n s doc) = doc"
  by (simp_all add: stored_def)

lemma start_2024_01_01: "strptime_Ymd ''2024-01-01'' = Inr jan_1"
  by (simp add: parse_defs calendar_defs jan_1_def)

lemma dec_31_0800_facts:
  "valid_datetime dec_31_0800"
  "to_us dec_31_0800 < to_us jan_1"
  by (simp_all add: dec_31_0800_def jan_1_def calendar_defs)

lemma jan_5_0800_facts:
  "valid_datetime jan_5_0800"
  "\<not> dt_less jan_5_0800 jan_1"
  "\<not> to_us jan_5_0800 < to_us jan_1"
  "days_between jan_5_0800 jan_1 = 4"
  "strftime_HM jan_5_0800 = ''08:00''"
  "strftime_Ymd jan_5_0800 = ''2024-01-05''"
  by (simp_all add: jan_5_0800_def jan_1_def calendar_defs format_defs)

lemma jan_5_0801_facts:
  "valid_datetime jan_5_0801"
  "to_us jan_1 \<le> to_us jan_5_0801"
  "\<not> dt_less jan_5_0801 jan_1"
  "days_between jan_5_0801 jan_1 = 4"
  "strftime_HM jan_5_0801 = ''08:01''"
  "strftime_Ymd jan_5_0801 = ''2024-01-05''"
  by (simp_all add: jan_5_0801_def jan_1_def calendar_defs format_defs)

lemma jan_5_2000_facts:
  "valid_datetime jan_5_2000"
  "\<not> dt_less jan_5_2000 jan_1"
  "\<not> to_us jan_5_2000 < to_us jan_1"
  "days_between jan_5_2000 jan_1 = 4"
  "strftime_HM jan_5_2000 = ''20:00''"
  "strftime_Ymd jan_5_2000 = ''2024-01-05''"
  by (simp_all add: jan_5_2000_def jan_1_def calendar_defs format_defs)

lemma loads_doc_AB:
  "example_loads doc_AB = Inr (JArr [phase_obj 3 ''A'' ''08:00'', phase_obj 9999 ''B'' ''08:00''])"
  by (simp add: example_loads_def)

lemma loads_doc_evening:
  "example_loads doc_evening = Inr (JArr [phase_obj 9999 ''1 tablet'' ''20:00''])"
  by (simp add: example_loads_def doc_AB_def doc_evening_def)

lemma loads_doc_unpadded:
  "example_loads doc_unpadded = Inr (JArr [phase_obj 9999 ''C'' ''8:00''])"
  by (simp add: example_loads_def doc_AB_def doc_evening_def doc_unpadded_def)

lemma loads_doc_no_duration:
  "example_loads doc_no_duration
     = Inr (JArr [JObj [(''dosage'', JStr ''D''), (''time'', JStr ''08:00'')]])"
  by (simp add: example_loads_def doc_AB_def doc_evening_def doc_unpadded_def doc_no_duration_def)

lemma windows_AB:
  "first_in_window 4 [phase_obj 3 ''A'' ''08:00'', phase_obj 9999 ''B'' ''08:00'']
     = Some (phase_obj 9999 ''B'' ''08:00'')"
  by code_simp

lemma windows_A: "first_in_window 4 [phase_obj 3 ''A'' ''08:00''] = None"
  by code_simp

lemma windows_evening:
  "first_in_window 4 [phase_obj 9999 ''1 tablet'' ''20:00'']
     = Some (phase_obj 9999 ''1 tablet'' ''20:00'')"
  by code_simp

section \<open>The phase resolver\<close>

text \<open>
  Claim C3. For a schedule whose periods all have a duration and an instant \<open>now\<close> that is
  not before the start date, the source does not \<^verbatim>\<open>continue\<close>; the elapsed days it computes
  are the whole days between the start date and \<open>now\<close>, truncated (\<open>sdiv\<close> rounds towards
  zero) and not negative; and its loop returns the first period, in order, whose window
  \<open>cum \<le> elapsed < cum + duration_days\<close> contains the elapsed days, stopping there, or none
  when no window contains them.
\<close>

theorem phase_scan_returns_first_window:
  assumes "valid_datetime now"
    and "strptime_Ymd s = Inr start"
    and "to_us start \<le> to_us now"
    and "list_all has_duration periods"
  shows "\<not> dt_less now start
    \<and> days_between now start = (to_us now - to_us start) sdiv us_per_day
    \<and> 0 \<le> days_between now start
    \<and> find_period (days_between now start) 0 periods
        = Inr (first_in_window (days_between now start) periods)"
proof -
  have v: "valid_datetime start" using strptime_Ymd_valid [OF assms(2)] by simp
  have "\<not> dt_less now start" using assms(3) dt_less_iff [OF assms(1) v] by simp
  with days_between_truncates [OF assms(3)] find_period_resolves [OF assms(4)]
  show ?thesis by simp
qed

theorem phase_scan_returns_first_window_witness:
  "days_between jan_5_0801 jan_1 = 4
   \<and> find_period 4 0 [phase_obj 3 ''A'' ''08:00'', phase_obj 9999 ''B'' ''08:00'']
       = Inr (Some (phase_obj 9999 ''B'' ''08:00''))
   \<and> find_period 4 0 [phase_obj 3 ''A'' ''08:00''] = Inr None"
proof -
  have h4: "list_all has_duration [phase_obj 3 ''A'' ''08:00'', phase_obj 9999 ''B'' ''08:00'']"
    by code_simp
  have h5: "list_all has_duration [phase_obj 3 ''A'' ''08:00'']" by code_simp
  note d = jan_5_0801_facts(4)
  from phase_scan_returns_first_window [OF jan_5_0801_facts(1) start_2024_01_01 jan_5_0801_facts(2) h4]
  have a: "find_period 4 0 [phase_obj 3 ''A'' ''08:00'', phase_obj 9999 ''B'' ''08:00'']
      = Inr (Some (phase_obj 9999 ''B'' ''08:00''))"
    unfolding d windows_AB by (elim conjE)
  from phase_scan_returns_first_window [OF jan_5_0801_facts(1) start_2024_01_01 jan_5_0801_facts(2) h5]
  have b: "find_period 4 0 [phase_obj 3 ''A'' ''08:00''] = Inr None"
    unfolding d windows_A by (elim conjE)
  from d a b show ?thesis by (intro conjI)
qed

text \<open>
  Claim C6. At an instant strictly before the start date of a stored schedule nothing is
  resolved for it: the reminder matcher sends nothing, the pending list and the today view
  get no entry (their loop bodies end at \<^verbatim>\<open>continue\<close>), and no phase is due.
\<close>

theorem nothing_resolves_before_start_date:
  assumes "valid_datetime now"
    and "strptime_Ymd (start_date row) = Inr start"
    and "to_us now < to_us start"
  shows "sent (remind_row json_loads send_ok now row) = []
    \<and> pending_body json_loads now row = Inr None
    \<and> today_body json_loads now row = Inr None
    \<and> due_phase json_loads now row = None"
proof -
  have v: "valid_datetime start" using strptime_Ymd_valid [OF assms(2)] by simp
  have lt: "dt_less now start" using assms(3) dt_less_iff [OF assms(1) v] by simp
  have 1: "sent (remind_row json_loads send_ok now row) = []"
    using assms(2) lt by (simp add: remind_row_def due_reminder_def split: sum.splits)
  have 2: "pending_body json_loads now row = Inr None"
    using assms(2) lt by (simp add: pending_body_def)
  have 3: "today_body json_loads now row = Inr None"
    using assms(2) lt by (simp add: today_body_def)
  have 4: "due_phase json_loads now row = None"
    using assms(2,3) by (simp add: due_phase_def split: sum.splits json.splits)
  from 1 2 3 4 show ?thesis by simp
qed

theorem nothing_resolves_before_start_date_witness:
  "sent (check_reminders example_loads always_delivered dec_31_0800
      \<lparr>schedules = [stored ''42'' ''Vitamin'' ''2024-01-01'' doc_AB], tracking = []\<rparr>) = []
   \<and> todays_pill example_loads dec_31_0800 (stored ''42'' ''Vitamin'' ''2024-01-01'' doc_AB) = None
   \<and> todays_entry example_loads dec_31_0800 (stored ''42'' ''Vitamin'' ''2024-01-01'' doc_AB) = None"
proof -
  have h2: "strptime_Ymd (start_date (stored ''42'' ''Vitamin'' ''2024-01-01'' doc_AB)) = Inr jan_1"
    by (simp add: stored_def start_2024_01_01)
  from nothing_resolves_before_start_date
    [OF dec_31_0800_facts(1) h2 dec_31_0800_facts(2), of example_loads always_delivered]
  have s: "sent (remind_row example_loads always_delivered dec_31_0800
        (stored ''42'' ''Vitamin'' ''2024-01-01'' doc_AB)) = []"
    and p: "pending_body example_loads dec_31_0800
        (stored ''42'' ''Vitamin'' ''2024-01-01'' doc_AB) = Inr None"
    and q: "today_body example_loads dec_31_0800
        (stored ''42'' ''Vitamin'' ''2024-01-01'' doc_AB) = Inr None"
    by blast+
  show ?thesis by (simp add: check_reminders_def todays_pill_def todays_entry_def s p q)
qed

section \<open>The reminder matcher\<close>

text \<open>
  The formatted time of a valid instant is always a zero-padded \<^verbatim>\<open>HH:MM\<close>; a tick is the
  concatenation of what it does for each row; and a message is sent for a row only when
  the scan of a decoded list breaks at a period whose time is the formatted time of the
  tick.
\<close>


lemma digit_cases:
  "k < 10 \<Longrightarrow>
   k = 0 \<or> k = 1 \<or> k = 2 \<or> k = 3 \<or> k = 4 \<or> k = 5 \<or> k = 6 \<or> k = 7 \<or> k = 8 \<or> k = (9::nat)"
  by arith

lemma digit_char_props: "is_digit (digit_char n) \<and> digit_val (digit_char n) = n mod 10"
proof -
  define k where "k = n mod 10"
  have "k < 10" by (simp add: k_def)
  from digit_cases [OF this]
  have "is_digit (''0123456789'' ! k) \<and> digit_val (''0123456789'' ! k) = k"
    by (elim disjE) (simp_all add: is_digit_def digit_val_def)
  then show ?thesis by (simp add: digit_char_def k_def)
qed

lemma is_HHMM_strftime:
  assumes "hour now < 24" "minute now < 60"
  shows "is_HHMM (strftime_HM now)"
proof -
  have h: "hour now div 10 mod 10 * 10 + hour now mod 10 = hour now"
    and m: "minute now div 10 mod 10 * 10 + minute now mod 10 = minute now"
    using assms by simp_all
  show ?thesis
    using assms by (simp add: strftime_HM_def pad2_def digit_char_props h m)
qed

lemma sent_append: "sent (xs @ ys) = sent xs @ sent ys"
  by (induction xs rule: sent.induct) simp_all

lemma remind_all_append:
  "remind_all L S now (xs @ ys) = remind_all L S now xs @ remind_all L S now ys"
  by (induction xs) simp_all

lemma sent_remind_all:
  "sent (remind_all L S now rows) = concat (map (\<lambda>row. sent (remind_row L S now row)) rows)"
  by (induction rows) (simp_all add: sent_append)

lemma first_in_window_mem: "first_in_window e ps = Some p \<Longrightarrow> p \<in> set ps"
  by (induction ps arbitrary: e) (auto simp: first_in_window_Nil first_in_window_Cons split: if_splits)

lemma find_period_strings:
  "find_period e c (map (\<lambda>x. JStr (f x)) xs) \<noteq> Inr (Some p)"
  by (cases xs) simp_all

lemma py_iter_find_period:
  assumes "py_iter schedule = Inr periods" "find_period e c periods = Inr (Some p)"
  shows "schedule = JArr periods"
proof (cases schedule)
  case (JObj items)
  with assms(1) have "periods = map (\<lambda>kv. JStr (fst kv)) items" by simp
  with assms(2) find_period_strings [of e c fst items p] show ?thesis by simp
next
  case (JStr s)
  with assms(1) have "periods = map (\<lambda>c. JStr [c]) s" by simp
  with assms(2) find_period_strings [of e c "\<lambda>c. [c]" s p] show ?thesis by simp
qed (use assms(1) in simp_all)

lemma due_reminder_Some:
  assumes "due_reminder L now row = Inr (Some r)"
  obtains periods start p where
    "L (schedule_json row) = Inr (JArr periods)"
    "strptime_Ymd (start_date row) = Inr start"
    "\<not> dt_less now start"
    "find_period (days_between now start) 0 periods = Inr (Some p)"
    "subscript p ''time'' = Inr (JStr (strftime_HM now))"
    "r = reminder_of row p"
proof -
  from assms obtain schedule start periods p dz where
    a: "L (schedule_json row) = Inr schedule" "strptime_Ymd (start_date row) = Inr start"
      "\<not> dt_less now start" "py_iter schedule = Inr periods"
      "find_period (days_between now start) 0 periods = Inr (Some p)"
      "subscript p ''time'' = Inr (JStr (strftime_HM now))"
      "subscript p ''dosage'' = Inr dz"
      "r = \<lparr>chat_id = user_id row, item = name row, dosage = dz,
           callback_data = ''take|'' @ name row @ ''|'' @ strftime_HM now\<rparr>"
    unfolding due_reminder_def
    by (auto split: sum.splits option.splits if_splits)
  from py_iter_find_period [OF a(4,5)] have "schedule = JArr periods" .
  moreover have "r = reminder_of row p" using a(6,7,8) by (simp add: reminder_of_def)
  ultimately show ?thesis using a that by blast
qed

lemma sent_remind_row:
  "sent (remind_row L S now row) =
     (case due_reminder L now row of Inr (Some r) \<Rightarrow> [r] | _ \<Rightarrow> [])"
  by (simp add: remind_row_def split: sum.splits option.splits)


text \<open>
  Claim C2. On a tick, the messages sent are, row by row in stored order, the messages sent
  for each stored schedule. A schedule with no due phase (no active phase, or an active
  phase whose time of day is not the minute of the tick) gets no message, whatever its
  stored data is. A schedule stored as a list of phases, each with a duration, a dose and a
  time, whose active phase has the time of the tick, gets exactly one message: the reminder
  of that phase. A message counts as sent when \<^verbatim>\<open>send_message\<close> is called with it.
\<close>

theorem reminders_sent_exactly_for_due_phases:
  assumes "valid_datetime now"
  shows "sent (check_reminders json_loads send_ok now d)
      = concat (map (\<lambda>row. sent (remind_row json_loads send_ok now row)) (schedules d))
    \<and> (\<forall>row. due_phase json_loads now row = None
          \<longrightarrow> sent (remind_row json_loads send_ok now row) = [])
    \<and> (\<forall>row periods p.
          json_loads (schedule_json row) = Inr (JArr periods) \<and> list_all is_phase periods
          \<and> due_phase json_loads now row = Some p
          \<longrightarrow> sent (remind_row json_loads send_ok now row) = [reminder_of row p])"
proof (intro conjI allI impI)
  show "sent (check_reminders json_loads send_ok now d)
      = concat (map (\<lambda>row. sent (remind_row json_loads send_ok now row)) (schedules d))"
    by (simp add: check_reminders_def sent_remind_all)
next
  fix row
  assume none: "due_phase json_loads now row = None"
  show "sent (remind_row json_loads send_ok now row) = []"
  proof (rule ccontr)
    assume "sent (remind_row json_loads send_ok now row) \<noteq> []"
    then obtain r where "due_reminder json_loads now row = Inr (Some r)"
      by (auto simp: sent_remind_row split: sum.splits option.splits)
    then obtain periods start p where
      a: "json_loads (schedule_json row) = Inr (JArr periods)"
        "strptime_Ymd (start_date row) = Inr start"
        "\<not> dt_less now start"
        "find_period (days_between now start) 0 periods = Inr (Some p)"
        "subscript p ''time'' = Inr (JStr (strftime_HM now))"
      by (rule due_reminder_Some)
    have v: "valid_datetime start" using strptime_Ymd_valid [OF a(2)] by simp
    have nb: "\<not> to_us now < to_us start" using a(3) dt_less_iff [OF assms v] by simp
    from find_period_first_in_window [OF a(4)]
    have "first_in_window (days_between now start) periods = Some p" by simp
    with a nb have "due_phase json_loads now row = Some p" by (simp add: due_phase_def)
    with none show False by simp
  qed
next
  fix row periods p
  assume h: "json_loads (schedule_json row) = Inr (JArr periods) \<and> list_all is_phase periods
    \<and> due_phase json_loads now row = Some p"
  then obtain start where
    s: "strptime_Ymd (start_date row) = Inr start" and nb: "\<not> to_us now < to_us start"
    and w: "first_in_window (days_between now start) periods = Some p"
    and t: "subscript p ''time'' = Inr (JStr (strftime_HM now))"
    by (auto simp: due_phase_def split: sum.splits option.splits if_splits)
  have v: "valid_datetime start" using strptime_Ymd_valid [OF s] by simp
  have nl: "\<not> dt_less now start" using nb dt_less_iff [OF assms v] by simp
  from h have "list_all has_duration periods"
    by (simp add: list_all_iff is_phase_def)
  from find_period_resolves [OF this] w
  have f: "find_period (days_between now start) 0 periods = Inr (Some p)" by simp
  from first_in_window_mem [OF w] h have "is_phase p" by (simp add: list_all_iff)
  then obtain dz where dz: "subscript p ''dosage'' = Inr dz"
    by (auto simp: is_phase_def split: sum.splits)
  have "due_reminder json_loads now row = Inr (Some (reminder_of row p))"
    using h s nl f t dz by (simp add: due_reminder_def reminder_of_def)
  then show "sent (remind_row json_loads send_ok now row) = [reminder_of row p]"
    by (simp add: sent_remind_row)
qed

theorem reminders_sent_exactly_for_due_phases_witness:
  "sent (check_reminders example_loads always_delivered jan_5_0800
     \<lparr>schedules = [stored ''42'' ''Vitamin'' ''2024-01-01'' doc_AB,
                   stored ''42'' ''Evening'' ''2024-01-01'' doc_evening],
      tracking = []\<rparr>)
   = [\<lparr>chat_id = ''42'', item = ''Vitamin'', dosage = JStr ''B'',
       callback_data = ''take|Vitamin|08:00''\<rparr>]"
proof -
  let ?v = "stored ''42'' ''Vitamin'' ''2024-01-01'' doc_AB"
  let ?e = "stored ''42'' ''Evening'' ''2024-01-01'' doc_evening"
  let ?now = "jan_5_0800"
  let ?d = "\<lparr>schedules = [?v, ?e], tracking = []\<rparr>"
  note t = reminders_sent_exactly_for_due_phases
    [OF jan_5_0800_facts(1), of example_loads always_delivered ?d]
  have lv: "example_loads (schedule_json ?v)
      = Inr (JArr [phase_obj 3 ''A'' ''08:00'', phase_obj 9999 ''B'' ''08:00''])"
    by (simp add: stored_sel loads_doc_AB)
  have pv: "list_all is_phase [phase_obj 3 ''A'' ''08:00'', phase_obj 9999 ''B'' ''08:00'']"
    by code_simp
  have dv: "due_phase example_loads ?now ?v = Some (phase_obj 9999 ''B'' ''08:00'')"
    by (simp add: due_phase_def stored_sel loads_doc_AB start_2024_01_01 jan_5_0800_facts windows_AB)
      (simp add: phase_obj_def)
  have de: "due_phase example_loads ?now ?e = None"
    by (simp add: due_phase_def stored_sel loads_doc_evening start_2024_01_01 jan_5_0800_facts
        windows_evening)
      (simp add: phase_obj_def)
  from t lv pv dv
  have sv: "sent (remind_row example_loads always_delivered ?now ?v)
      = [reminder_of ?v (phase_obj 9999 ''B'' ''08:00'')]" by blast
  from t de have se: "sent (remind_row example_loads always_delivered ?now ?e) = []" by blast
  from t have "sent (check_reminders example_loads always_delivered ?now ?d)
      = concat (map (\<lambda>row. sent (remind_row example_loads always_delivered ?now row))
          (schedules ?d))" by blast
  then show ?thesis
    by (simp add: sv se) (simp add: reminder_of_def phase_obj_def stored_sel)
qed

text \<open>
  Claim C7. When the body of the \<^verbatim>\<open>try\<close> raises for one stored schedule, the tick does what
  it does for the rows before it, writes one log line for that row, sends nothing for it,
  and then does for the rows after it exactly what it would have done without the failing
  row.
\<close>

theorem malformed_schedule_is_logged_and_skipped:
  assumes "due_reminder json_loads now row = Inl e"
  shows "check_reminders json_loads send_ok now (d\<lparr>schedules := before @ row # after\<rparr>)
     = check_reminders json_loads send_ok now (d\<lparr>schedules := before\<rparr>)
       @ [LogError (user_id row) e]
       @ check_reminders json_loads send_ok now (d\<lparr>schedules := after\<rparr>)"
  using assms by (simp add: check_reminders_def remind_all_append remind_row_def)

theorem malformed_schedule_is_logged_and_skipped_witness:
  "check_reminders example_loads always_delivered jan_5_2000
     \<lparr>schedules = [stored ''42'' ''Vitamin'' ''2024-01-01'' doc_AB,
                   stored ''7'' ''Broken'' ''2024-01-01'' doc_no_duration,
                   stored ''42'' ''Evening'' ''2024-01-01'' doc_evening],
      tracking = []\<rparr>
   = [LogError ''7'' KeyError,
      SendMessage \<lparr>chat_id = ''42'', item = ''Evening'', dosage = JStr ''1 tablet'',
        callback_data = ''take|Evening|20:00''\<rparr>]"
proof -
  let ?v = "stored ''42'' ''Vitamin'' ''2024-01-01'' doc_AB"
  let ?b = "stored ''7'' ''Broken'' ''2024-01-01'' doc_no_duration"
  let ?e = "stored ''42'' ''Evening'' ''2024-01-01'' doc_evening"
  let ?now = "jan_5_2000"
  have h: "due_reminder example_loads ?now ?b = Inl KeyError"
    by (simp add: due_reminder_def stored_sel loads_doc_no_duration start_2024_01_01 jan_5_2000_facts)
  have v: "remind_row example_loads always_delivered ?now ?v = []"
    by (simp add: remind_row_def due_reminder_def stored_sel loads_doc_AB start_2024_01_01
        jan_5_2000_facts phase_obj_def)
  have e: "remind_row example_loads always_delivered ?now ?e
      = [SendMessage \<lparr>chat_id = ''42'', item = ''Evening'', dosage = JStr ''1 tablet'',
          callback_data = ''take|Evening|20:00''\<rparr>]"
    by (simp add: remind_row_def due_reminder_def stored_sel loads_doc_evening start_2024_01_01
        jan_5_2000_facts phase_obj_def always_delivered_def)
  from malformed_schedule_is_logged_and_skipped
    [OF h, where send_ok = always_delivered and d = "\<lparr>schedules = [], tracking = []\<rparr>"
      and before = "[?v]" and after = "[?e]"]
  show ?thesis by (simp add: check_reminders_def v e stored_sel)
qed

text \<open>
  Claim C9. The match is an equality of strings with \<^verbatim>\<open>now.strftime("%H:%M")\<close>. If the
  active period of a stored schedule has a time string that is not a zero-padded
  \<^verbatim>\<open>HH:MM\<close>, the tick does nothing for that schedule, at any instant: neither \<^verbatim>\<open>8:00\<close> nor
  \<^verbatim>\<open>08:00:00\<close> ever matches.
\<close>

theorem time_not_HHMM_never_reminds:
  assumes "valid_datetime now"
    and "json_loads (schedule_json row) = Inr schedule"
    and "py_iter schedule = Inr periods"
    and "strptime_Ymd (start_date row) = Inr start"
    and "find_period (days_between now start) 0 periods = Inr (Some p)"
    and "subscript p ''time'' = Inr (JStr t)"
    and "\<not> is_HHMM t"
  shows "remind_row json_loads send_ok now row = []"
proof -
  have "is_HHMM (strftime_HM now)"
    using assms(1) by (intro is_HHMM_strftime) (simp_all add: valid_datetime_def)
  with assms(7) have "JStr t \<noteq> JStr (strftime_HM now)" by auto
  with assms(2-6) show ?thesis
    by (simp add: remind_row_def due_reminder_def)
qed

theorem time_not_HHMM_never_reminds_witness:
  "remind_row example_loads always_delivered jan_5_0800
     (stored ''42'' ''Drops'' ''2024-01-01'' doc_unpadded) = []
   \<and> \<not> is_HHMM ''8:00'' \<and> \<not> is_HHMM ''08:00:00'' \<and> is_HHMM ''08:00''"
proof -
  let ?r = "stored ''42'' ''Drops'' ''2024-01-01'' doc_unpadded"
  have h2: "example_loads (schedule_json ?r) = Inr (JArr [phase_obj 9999 ''C'' ''8:00''])"
    by (simp add: stored_sel loads_doc_unpadded)
  have h3: "py_iter (JArr [phase_obj 9999 ''C'' ''8:00'']) = Inr [phase_obj 9999 ''C'' ''8:00'']"
    by simp
  have h4: "strptime_Ymd (start_date ?r) = Inr (jan_1)"
    by (simp add: stored_sel start_2024_01_01)
  have h5: "find_period (days_between jan_5_0800 (jan_1)) 0
      [phase_obj 9999 ''C'' ''8:00''] = Inr (Some (phase_obj 9999 ''C'' ''8:00''))"
    by (simp add: jan_5_0800_facts phase_obj_def)
  have h6: "subscript (phase_obj 9999 ''C'' ''8:00'') ''time'' = Inr (JStr ''8:00'')"
    by (simp add: phase_obj_def)
  have h7: "\<not> is_HHMM ''8:00''" by simp
  have h8: "\<not> is_HHMM ''08:00:00''" by simp
  have h9: "is_HHMM ''08:00''" by (simp add: is_digit_def digit_val_def)
  from time_not_HHMM_never_reminds
    [where json_loads = example_loads and row = ?r and send_ok = always_delivered,
      OF jan_5_0800_facts(1) h2 h3 h4 h5 h6 h7]
    h7 h8 h9
  show ?thesis by (intro conjI)
qed


section \<open>The pending list and the today view\<close>

text \<open>
  A pill stays in the pending list only if its name and time are not among the pairs
  taken today; sorting by time keeps the pills and orders them by the time string.
\<close>

lemma taken_pills_iff:
  "(n, v) \<in> set (taken_pills d uid today) \<longleftrightarrow>
     (\<exists>t \<in> set (tracking d). t_user_id t = uid \<and> taken_date t = today
        \<and> t_name t = n \<and> v = JStr (taken_time t))"
  by (auto simp: taken_pills_def)

lemma pending_not_taken:
  assumes "get_pending_pills L d now uid = Inr pending" "p \<in> set pending"
  shows "(p_name p, p_time p) \<notin> set (taken_pills d uid (strftime_Ymd now))"
  using assms by (auto simp: get_pending_pills_def Let_def split: if_splits)

lemma py_sorted_strings:
  assumes "py_sorted key xs = Inr ys" "list_all (\<lambda>x. is_str (key x)) ys"
  shows "sorted (map (\<lambda>x. str_of (key x)) ys) \<and> mset ys = mset xs"
proof (cases "length xs \<le> 1")
  case True
  with assms(1) have "ys = xs" by (simp add: py_sorted_def)
  with True show ?thesis by (simp add: sorted01)
next
  case False
  show ?thesis
  proof (cases "list_all (\<lambda>x. is_str (key x)) xs")
    case True
    with False assms(1) have "ys = sort_key (\<lambda>x. str_of (key x)) xs"
      by (simp add: py_sorted_def)
    then show ?thesis by (simp add: sorted_sort_key)
  next
    case nstr: False
    with False assms(1) have "ys = sort_key (\<lambda>x. num_of (key x)) xs"
      by (simp add: py_sorted_def split: if_splits)
    then have "set ys = set xs" by simp
    with assms(2) nstr show ?thesis by (simp add: list_all_iff)
  qed
qed

lemma py_sorted_marks:
  assumes "py_sorted key xs = Inr ys"
  shows "set ys = set xs"
  using assms by (auto simp: py_sorted_def split: if_splits)

subsection \<open>The examples of this section\<close>


lemma vitamin_sel:
  "user_id vitamin = ''42''" "name vitamin = ''Vitamin''"
  "start_date vitamin = ''2024-01-01''" "schedule_json vitamin = doc_AB"
  by (simp_all add: vitamin_def stored_sel)

lemma evening_sel:
  "user_id evening = ''42''" "name evening = ''Evening''"
  "start_date evening = ''2024-01-01''" "schedule_json evening = doc_evening"
  by (simp_all add: evening_def stored_sel)

lemma todays_pill_vitamin:
  "todays_pill example_loads jan_5_0801 vitamin = Some \<lparr>p_name = ''Vitamin'', p_time = JStr ''08:00''\<rparr>"
  by (simp add: todays_pill_def pending_body_def vitamin_sel loads_doc_AB start_2024_01_01
      jan_5_0801_facts phase_obj_def)

lemma todays_pill_evening:
  "todays_pill example_loads jan_5_0801 evening = Some \<lparr>p_name = ''Evening'', p_time = JStr ''20:00''\<rparr>"
  by (simp add: todays_pill_def pending_body_def evening_sel loads_doc_evening start_2024_01_01
      jan_5_0801_facts phase_obj_def)

lemma todays_entry_vitamin:
  "todays_entry example_loads jan_5_0801 vitamin
     = Some \<lparr>tp_name = ''Vitamin'', tp_dosage = JStr ''B'', tp_time = JStr ''08:00''\<rparr>"
  by (simp add: todays_entry_def today_body_def vitamin_sel loads_doc_AB start_2024_01_01
      jan_5_0801_facts phase_obj_def)

lemma log_vitamin:
  "log_selected_pill \<lparr>schedules = ss, tracking = ts\<rparr> jan_5_0801 jan_5_0801 ''42'' ''Vitamin (08:00)''
     = (\<lparr>schedules = ss, tracking = ts @ [vitamin_taken]\<rparr>, Logged ''Vitamin'')"
proof -
  have 1: "map lower_char ''Vitamin (08:00)'' \<noteq> ''cancel''" by code_simp
  have 2: "rsplit1 '' ('' ''Vitamin (08:00)'' = Some (''Vitamin'', ''08:00)'')" by code_simp
  have 3: "isoformat jan_5_0801 = ''2024-01-05T08:01:00''"
    by (simp add: isoformat_def format_defs jan_5_0801_def at_def)
  show ?thesis
    by (simp add: log_selected_pill_def 1 2 3 insert_tracking_def jan_5_0801_facts vitamin_taken_def)
qed

lemma pending_evening_vitamin:
  "get_pending_pills example_loads \<lparr>schedules = [evening, vitamin], tracking = []\<rparr> jan_5_0801 ''42''
     = Inr [\<lparr>p_name = ''Evening'', p_time = JStr ''20:00''\<rparr>,
            \<lparr>p_name = ''Vitamin'', p_time = JStr ''08:00''\<rparr>]"
  by (simp add: get_pending_pills_def taken_pills_def evening_sel vitamin_sel
      todays_pill_evening todays_pill_vitamin)

lemma sorted_vitamin_evening:
  "py_sorted p_time [\<lparr>p_name = ''Evening'', p_time = JStr ''20:00''\<rparr>,
            \<lparr>p_name = ''Vitamin'', p_time = JStr ''08:00''\<rparr>]
     = Inr [\<lparr>p_name = ''Vitamin'', p_time = JStr ''08:00''\<rparr>,
            \<lparr>p_name = ''Evening'', p_time = JStr ''20:00''\<rparr>]"
  by code_simp


text \<open>
  Claim C4. Whenever \<^verbatim>\<open>get_pending_pills\<close> returns a list for a user at an instant, no entry
  of the list has the name and the time of a tracking record of that user whose date is
  the date of the instant.
\<close>

theorem pending_excludes_taken_slots:
  assumes "get_pending_pills json_loads d now uid = Inr pending"
    and "t \<in> set (tracking d)"
    and "t_user_id t = uid"
    and "taken_date t = strftime_Ymd now"
  shows "\<not> (\<exists>p \<in> set pending. p_name p = t_name t \<and> p_time p = JStr (taken_time t))"
proof
  assume "\<exists>p \<in> set pending. p_name p = t_name t \<and> p_time p = JStr (taken_time t)"
  then obtain p where p: "p \<in> set pending" "p_name p = t_name t" "p_time p = JStr (taken_time t)"
    by blast
  from assms(2-4) have "(t_name t, JStr (taken_time t)) \<in> set (taken_pills d uid (strftime_Ymd now))"
    unfolding taken_pills_iff by blast
  with pending_not_taken [OF assms(1) p(1)] p(2,3) show False by simp
qed

theorem pending_excludes_taken_slots_witness:
  "get_pending_pills example_loads
      \<lparr>schedules = [evening, vitamin], tracking = [vitamin_taken]\<rparr> jan_5_0801 ''42''
     = Inr [\<lparr>p_name = ''Evening'', p_time = JStr ''20:00''\<rparr>]
   \<and> \<not> (\<exists>p \<in> set [\<lparr>p_name = ''Evening'', p_time = JStr ''20:00''\<rparr>].
          p_name p = ''Vitamin'' \<and> p_time p = JStr ''08:00'')"
proof -
  let ?d = "\<lparr>schedules = [evening, vitamin], tracking = [vitamin_taken]\<rparr>"
  have g: "get_pending_pills example_loads ?d jan_5_0801 ''42''
      = Inr [\<lparr>p_name = ''Evening'', p_time = JStr ''20:00''\<rparr>]"
    by (simp add: get_pending_pills_def taken_pills_def evening_sel vitamin_sel
        todays_pill_evening todays_pill_vitamin jan_5_0801_facts vitamin_taken_def)
  have m: "vitamin_taken \<in> set (tracking ?d)" by simp
  have u: "t_user_id vitamin_taken = ''42''" by (simp add: vitamin_taken_def)
  have dt: "taken_date vitamin_taken = strftime_Ymd jan_5_0801"
    by (simp add: vitamin_taken_def jan_5_0801_facts)
  from pending_excludes_taken_slots [OF g m u dt] g show ?thesis
    by (simp add: vitamin_taken_def)
qed

text \<open>
  Claim C5, as stated, on the example: with a schedule due at 20:00 stored before one due
  at 08:00, \<^verbatim>\<open>get_pending_pills\<close> returns them in stored order, which is not ascending in the
  time of day.
\<close>

theorem pending_list_not_sorted:
  "get_pending_pills example_loads \<lparr>schedules = [evening, vitamin], tracking = []\<rparr> jan_5_0801 ''42''
     = Inr [\<lparr>p_name = ''Evening'', p_time = JStr ''20:00''\<rparr>,
            \<lparr>p_name = ''Vitamin'', p_time = JStr ''08:00''\<rparr>]
   \<and> \<not> sorted (map (str_of \<circ> p_time)
          [\<lparr>p_name = ''Evening'', p_time = JStr ''20:00''\<rparr>,
           \<lparr>p_name = ''Vitamin'', p_time = JStr ''08:00''\<rparr>])"
proof -
  have "\<not> ''20:00'' \<le> ''08:00''" by code_simp
  with pending_evening_vitamin show ?thesis by simp
qed

text \<open>
  Claim C5, amended. \<^verbatim>\<open>get_pending_pills\<close> returns the pending pills in stored order;
  the sorting is done where the list is shown. The buttons that \<^verbatim>\<open>logpill_command\<close> builds
  from it are the same pills, ordered by the time string ascending, whenever the times are
  strings.
\<close>

theorem logpill_keyboard_sorted_by_time:
  assumes "logpill_command json_loads d now uid = Inr (ChoosePill ps)"
    and "list_all (\<lambda>p. is_str (p_time p)) ps"
  shows "sorted (map (str_of \<circ> p_time) ps)
    \<and> (\<exists>pending. get_pending_pills json_loads d now uid = Inr pending \<and> mset ps = mset pending)"
proof -
  from assms(1) obtain pending where
    g: "get_pending_pills json_loads d now uid = Inr pending"
    and s: "py_sorted p_time pending = Inr ps"
    by (auto simp: logpill_command_def split: sum.splits if_splits)
  from py_sorted_strings [OF s assms(2)] g show ?thesis by (auto simp: comp_def)
qed

theorem logpill_keyboard_sorted_by_time_witness:
  "logpill_command example_loads \<lparr>schedules = [evening, vitamin], tracking = []\<rparr> jan_5_0801 ''42''
     = Inr (ChoosePill [\<lparr>p_name = ''Vitamin'', p_time = JStr ''08:00''\<rparr>,
                        \<lparr>p_name = ''Evening'', p_time = JStr ''20:00''\<rparr>])
   \<and> sorted (map (str_of \<circ> p_time) [\<lparr>p_name = ''Vitamin'', p_time = JStr ''08:00''\<rparr>,
                        \<lparr>p_name = ''Evening'', p_time = JStr ''20:00''\<rparr>])"
proof -
  have l: "logpill_command example_loads \<lparr>schedules = [evening, vitamin], tracking = []\<rparr>
      jan_5_0801 ''42''
     = Inr (ChoosePill [\<lparr>p_name = ''Vitamin'', p_time = JStr ''08:00''\<rparr>,
                        \<lparr>p_name = ''Evening'', p_time = JStr ''20:00''\<rparr>])"
    by (simp add: logpill_command_def pending_evening_vitamin sorted_vitamin_evening)
  have s: "list_all (\<lambda>p. is_str (p_time p)) [\<lparr>p_name = ''Vitamin'', p_time = JStr ''08:00''\<rparr>,
                        \<lparr>p_name = ''Evening'', p_time = JStr ''20:00''\<rparr>]" by simp
  from logpill_keyboard_sorted_by_time [OF l s] l show ?thesis by blast
qed

text \<open>
  Claim C10. The pending list and the today view know a pill only by its name and time,
  not by the stored row it came from. One tracking record of a user for a name, the date
  of the instant and a time keeps every pill with that name and time out of the pending
  list, and marks every line with that name and time in the today view as taken, however
  many stored schedules produced them.
\<close>

theorem today_and_pending_ignore_source_row:
  assumes "t \<in> set (tracking d)"
    and "t_user_id t = uid"
    and "taken_date t = strftime_Ymd now"
  shows "(\<forall>pending. get_pending_pills json_loads d now uid = Inr pending \<longrightarrow>
            (\<forall>p \<in> set pending. \<not> (p_name p = t_name t \<and> p_time p = JStr (taken_time t))))
    \<and> (\<forall>lines. get_todaypills_message json_loads d now uid = Inr (TodayPills lines) \<longrightarrow>
            (\<forall>(p, st) \<in> set lines.
               tp_name p = t_name t \<and> tp_time p = JStr (taken_time t) \<longrightarrow> st = Taken))"
proof (intro conjI allI impI ballI)
  have m: "(t_name t, JStr (taken_time t)) \<in> set (taken_pills d uid (strftime_Ymd now))"
    using assms unfolding taken_pills_iff by blast
  {
    fix pending p
    assume "get_pending_pills json_loads d now uid = Inr pending" "p \<in> set pending"
    from pending_not_taken [OF this] m
    show "\<not> (p_name p = t_name t \<and> p_time p = JStr (taken_time t))" by auto
  }
  {
    fix lines x
    assume g: "get_todaypills_message json_loads d now uid = Inr (TodayPills lines)"
      and x: "x \<in> set lines"
    then have "snd x = (if (tp_name (fst x), tp_time (fst x))
        \<in> set (taken_pills d uid (strftime_Ymd now)) then Taken else Pending)"
      by (auto simp: get_todaypills_message_def Let_def split: if_splits sum.splits)
    with m show "case x of (p, st) \<Rightarrow>
        tp_name p = t_name t \<and> tp_time p = JStr (taken_time t) \<longrightarrow> st = Taken"
      by (auto split: prod.splits)
  }
qed

theorem today_and_pending_ignore_source_row_witness:
  "get_pending_pills example_loads
      \<lparr>schedules = [vitamin, vitamin], tracking = [vitamin_taken]\<rparr> jan_5_0801 ''42'' = Inr []
   \<and> get_todaypills_message example_loads
      \<lparr>schedules = [vitamin, vitamin], tracking = [vitamin_taken]\<rparr> jan_5_0801 ''42''
     = Inr (TodayPills
         [(\<lparr>tp_name = ''Vitamin'', tp_dosage = JStr ''B'', tp_time = JStr ''08:00''\<rparr>, Taken),
          (\<lparr>tp_name = ''Vitamin'', tp_dosage = JStr ''B'', tp_time = JStr ''08:00''\<rparr>, Taken)])"
proof -
  let ?d = "\<lparr>schedules = [vitamin, vitamin], tracking = [vitamin_taken]\<rparr>"
  let ?x = "\<lparr>tp_name = ''Vitamin'', tp_dosage = JStr ''B'', tp_time = JStr ''08:00''\<rparr>"
  have m: "vitamin_taken \<in> set (tracking ?d)" by simp
  have u: "t_user_id vitamin_taken = ''42''" by (simp add: vitamin_taken_def)
  have dt: "taken_date vitamin_taken = strftime_Ymd jan_5_0801"
    by (simp add: vitamin_taken_def jan_5_0801_facts)
  note t = today_and_pending_ignore_source_row [OF m u dt, where json_loads = example_loads]
  have s: "py_sorted tp_time [?x, ?x] = Inr [?x, ?x]" by code_simp
  obtain st1 st2 where
    g: "get_todaypills_message example_loads ?d jan_5_0801 ''42''
        = Inr (TodayPills [(?x, st1), (?x, st2)])"
    by (simp add: get_todaypills_message_def taken_pills_def vitamin_sel todays_entry_vitamin s)
  from t g have "st1 = Taken" "st2 = Taken"
    by (auto simp: vitamin_taken_def)
  with g have today: "get_todaypills_message example_loads ?d jan_5_0801 ''42''
        = Inr (TodayPills [(?x, Taken), (?x, Taken)])" by simp
  have p: "get_pending_pills example_loads ?d jan_5_0801 ''42'' = Inr []"
    by (simp add: get_pending_pills_def taken_pills_def vitamin_sel todays_pill_vitamin
        jan_5_0801_facts vitamin_taken_def)
  from p today show ?thesis by (intro conjI)
qed

section \<open>Deleting a schedule\<close>

text \<open>
  Claim C8. Deleting by user and name when the user has no schedule of that name leaves
  the database as it is and reports a row count of zero; the handler answers with its
  \<^verbatim>\<open>delete_error\<close> reply and raises nothing.
\<close>

theorem delete_missing_schedule_is_noop:
  assumes "\<forall>r \<in> set (schedules d). \<not> (user_id r = uid \<and> name r = choice)"
  shows "delete_schedules d uid choice = (d, 0)
    \<and> delete_selected_pill d uid choice = (d, DeleteError)"
proof -
  from assms have f: "filter (\<lambda>r. \<not> (user_id r = uid \<and> name r = choice)) (schedules d) = schedules d"
    and g: "filter (\<lambda>r. user_id r = uid \<and> name r = choice) (schedules d) = []"
    by (simp_all add: filter_id_conv filter_empty_conv)
  have "delete_schedules d uid choice = (d, 0)"
    unfolding delete_schedules_def f g by simp
  then show ?thesis by (simp add: delete_selected_pill_def)
qed

theorem delete_missing_schedule_is_noop_witness:
  "delete_selected_pill \<lparr>schedules = [vitamin, evening], tracking = [vitamin_taken]\<rparr>
      ''42'' ''Aspirin''
     = (\<lparr>schedules = [vitamin, evening], tracking = [vitamin_taken]\<rparr>, DeleteError)
   \<and> delete_selected_pill \<lparr>schedules = [vitamin, evening], tracking = [vitamin_taken]\<rparr>
      ''7'' ''Vitamin''
     = (\<lparr>schedules = [vitamin, evening], tracking = [vitamin_taken]\<rparr>, DeleteError)"
proof -
  let ?d = "\<lparr>schedules = [vitamin, evening], tracking = [vitamin_taken]\<rparr>"
  have a: "\<forall>r \<in> set (schedules ?d). \<not> (user_id r = ''42'' \<and> name r = ''Aspirin'')"
    by (simp add: vitamin_sel evening_sel)
  have b: "\<forall>r \<in> set (schedules ?d). \<not> (user_id r = ''7'' \<and> name r = ''Vitamin'')"
    by (simp add: vitamin_sel evening_sel)
  from delete_missing_schedule_is_noop [OF a] delete_missing_schedule_is_noop [OF b]
  show ?thesis by blast
qed

section \<open>Logging the same dose twice\<close>

text \<open>
  The handler never gives its \<^verbatim>\<open>already logged\<close> reply: the insert cannot raise.
\<close>

lemma log_selected_pill_never_already_logged:
  "snd (log_selected_pill d now now' uid choice) \<noteq> AlreadyLogged n"
  by (simp add: log_selected_pill_def insert_tracking_def split: option.splits prod.splits)


text \<open>
  Claim C1, evaluated. User 42 has two schedules and logs \<^verbatim>\<open>Vitamin (08:00)\<close> twice on
  2024-01-05. Both calls answer \<^verbatim>\<open>Logged\<close>, and the database then holds two tracking
  records for the one dose slot.
\<close>

theorem second_identical_log_is_stored_again:
  "log_selected_pill \<lparr>schedules = [vitamin, evening], tracking = []\<rparr>
      jan_5_0801 jan_5_0801 ''42'' ''Vitamin (08:00)''
     = (\<lparr>schedules = [vitamin, evening], tracking = [vitamin_taken]\<rparr>, Logged ''Vitamin'')
   \<and> log_selected_pill \<lparr>schedules = [vitamin, evening], tracking = [vitamin_taken]\<rparr>
      jan_5_0801 jan_5_0801 ''42'' ''Vitamin (08:00)''
     = (\<lparr>schedules = [vitamin, evening], tracking = [vitamin_taken, vitamin_taken]\<rparr>,
        Logged ''Vitamin'')
   \<and> length (slot_rows \<lparr>schedules = [vitamin, evening], tracking = [vitamin_taken, vitamin_taken]\<rparr>
        ''42'' ''Vitamin'' ''2024-01-05'' ''08:00'') = 2"
  using log_vitamin [of "[vitamin, evening]" "[]"] log_vitamin [of "[vitamin, evening]" "[vitamin_taken]"]
  by (simp add: slot_rows_def vitamin_taken_def)


end
